theory Spec2Isabelle
  imports Complex_Main "HOL-Library.Word" "HOL-Library.Sublist"
begin

section \<open>Numbers and geometry\<close>

text \<open>
  The script computes with Python floats and with the engine's single-precision vectors.
  A float is modelled by the real number it denotes, and vector arithmetic is exact.
  Where a claim depends on rounding (the depth image), the rounding is an explicit
  function of the model.
\<close>

type_synonym vec3 = "real \<times> real \<times> real"

definition vadd :: "vec3 \<Rightarrow> vec3 \<Rightarrow> vec3" where
  "vadd a b = (case a of (ax, ay, az) \<Rightarrow> case b of (bx, by, bz) \<Rightarrow> (ax + bx, ay + by, az + bz))"

text \<open>\<^verbatim>\<open>mn.math.pi_half\<close>\<close>

definition pi_half :: real where
  "pi_half = pi / 2"

text \<open>
  The pose of a scene node of the engine: its translation, and its rotation. The script
  only ever composes axis-angle rotations onto the rotation the node had at start, so the
  rotation is kept as the sequence of \<open>(angle, axis)\<close> rotations applied so far, newest
  first. Translation and rotation are separate components of the node: rotating does not
  move it.
\<close>

record scene_node =
  translation :: vec3
  rotation :: "(real \<times> vec3) list"

text \<open>\<^verbatim>\<open>scene_node.rotate(mn.Rad(a), axis)\<close>\<close>

definition rotate_node :: "real \<Rightarrow> vec3 \<Rightarrow> scene_node \<Rightarrow> scene_node" where
  "rotate_node a axis n = n\<lparr>rotation := (a, axis) # rotation n\<rparr>"

text \<open>\<^verbatim>\<open>scene_node.translation += np.array(v)\<close>\<close>

definition translate_by :: "vec3 \<Rightarrow> scene_node \<Rightarrow> scene_node" where
  "translate_by v n = n\<lparr>translation := vadd (translation n) v\<rparr>"

section \<open>The trajectory: pose update of one iteration\<close>

text \<open>
  Lines 323 to 332 of the script, the \<^verbatim>\<open>if\<close>/\<^verbatim>\<open>elif\<close> chain on \<^verbatim>\<open>count\<close>, acting on the
  scene node of agent 0.
\<close>

definition pose_update :: "int \<Rightarrow> scene_node \<Rightarrow> scene_node" where
  "pose_update count n =
     (if count < 40 then
        rotate_node (- pi_half / 20) (0, 1, 0) n
      else if count < 60 then
        rotate_node (- pi_half / 20) (0, 1, 0) (translate_by (3 / 10, 0, 0) n)
      else if count < 80 then
        rotate_node (- pi_half / 20) (0, 1, 0) (translate_by (0, 0, 3 / 10) n)
      else
        translate_by (- (1 / 10), 0, - (1 / 10)) n)"

section \<open>Sensor buffers and images\<close>

type_synonym u8 = "8 word"
type_synonym rgb = "u8 \<times> u8 \<times> u8"
type_synonym rgba = "u8 \<times> u8 \<times> u8 \<times> u8"

text \<open>
  A two-dimensional numpy array: its shape (rows, columns) and its elements in row-major
  order, which is what \<^verbatim>\<open>flatten()\<close> returns. The colour buffer has a third axis of length 4,
  which is folded into the element type.
\<close>

record 'a ndarray =
  shape0 :: nat
  shape1 :: nat
  flat :: "'a list"

text \<open>
  One sensor observation: the mapping returned by \<^verbatim>\<open>get_sensor_observations()\<close>. The three
  keys are the uuids that \<^verbatim>\<open>make_cfg\<close> gives to the three sensors it always attaches.
  Semantic ids are integers (the sign and width of the buffer's dtype do not matter to
  what the script does with them); depths are floats.
\<close>

record observation =
  obs_color_sensor_1st_person :: "rgba ndarray"
  obs_semantic_sensor :: "int ndarray"
  obs_depth_sensor :: "real ndarray"

text \<open>A PIL image: its size (width, height) and its pixels in row-major order.\<close>

datatype image =
  Image_RGBA "nat \<times> nat" "rgba list"
| Image_L "nat \<times> nat" "u8 list"

text \<open>A palette image while it is being built (mode \<^verbatim>\<open>P\<close>): palette bytes and indices.\<close>

record p_image =
  p_size :: "nat \<times> nat"
  p_palette :: "u8 list"
  p_data :: "u8 list"

text \<open>\<^verbatim>\<open>Image.new("P", size)\<close>: all indices zero.\<close>

definition Image_new_P :: "nat \<times> nat \<Rightarrow> p_image" where
  "Image_new_P sz = \<lparr>p_size = sz, p_palette = [], p_data = replicate (fst sz * snd sz) 0\<rparr>"

definition putpalette :: "u8 list \<Rightarrow> p_image \<Rightarrow> p_image" where
  "putpalette pal img = img\<lparr>p_palette := pal\<rparr>"

text \<open>
  \<^verbatim>\<open>putdata\<close> copies the sequence over the pixels from the upper left corner on. The script
  passes the flattened buffer of an array whose shape gave the image its size, so there
  are exactly as many values as pixels.
\<close>

definition putdata :: "u8 list \<Rightarrow> p_image \<Rightarrow> p_image" where
  "putdata d img = img\<lparr>p_data := d @ drop (length d) (p_data img)\<rparr>"

text \<open>Colour of a palette index: three consecutive palette bytes, opaque; black beyond the palette.\<close>

definition palette_rgba :: "u8 list \<Rightarrow> u8 \<Rightarrow> rgba" where
  "palette_rgba pal i =
     (if 3 * unat i + 2 < length pal
      then (pal ! (3 * unat i), pal ! (3 * unat i + 1), pal ! (3 * unat i + 2), 255)
      else (0, 0, 0, 255))"

text \<open>\<^verbatim>\<open>img.convert("RGBA")\<close> on a palette image.\<close>

definition convert_RGBA :: "p_image \<Rightarrow> image" where
  "convert_RGBA img = Image_RGBA (p_size img) (map (palette_rgba (p_palette img)) (p_data img))"

text \<open>\<^verbatim>\<open>d3_40_colors_rgb.flatten()\<close>, for the engine's colour table given as a list of triples.\<close>

definition flatten_colors :: "rgb list \<Rightarrow> u8 list" where
  "flatten_colors cs = concat (map (\<lambda>(r, g, b). [r, g, b]) cs)"

text \<open>\<^verbatim>\<open>.astype(np.uint8)\<close> on an integer: the low eight bits.\<close>

definition astype_uint8_int :: "int \<Rightarrow> u8" where
  "astype_uint8_int v = word_of_int v"

text \<open>
  \<^verbatim>\<open>.astype(np.uint8)\<close> on a float: the fraction is dropped (rounding towards zero). For a
  value whose integer part is outside 0..255 nothing clips: the result is the low eight
  bits of the integer part, so it wraps around.
\<close>

definition astype_uint8_float :: "real \<Rightarrow> u8" where
  "astype_uint8_float x = word_of_int (if 0 \<le> x then \<lfloor>x\<rfloor> else \<lceil>x\<rceil>)"

text \<open>\<^verbatim>\<open>(semantic_obs.flatten() % 40).astype(np.uint8)\<close>, for one value.\<close>

definition semantic_index :: "int \<Rightarrow> u8" where
  "semantic_index v = astype_uint8_int (v mod 40)"

text \<open>Lines 278 to 281: the semantic image that is saved.\<close>

definition semantic_image :: "rgb list \<Rightarrow> int ndarray \<Rightarrow> image" where
  "semantic_image d3_40_colors_rgb semantic_obs =
     convert_RGBA
       (putdata (map semantic_index (flat semantic_obs))
         (putpalette (flatten_colors d3_40_colors_rgb)
           (Image_new_P (shape1 semantic_obs, shape0 semantic_obs))))"

text \<open>
  \<^verbatim>\<open>depth_obs / 10 * 255\<close> on one single-precision value: each of the two operations rounds
  its exact result to single precision. The rounding \<open>f32\<close> is a parameter of the model.
\<close>

definition depth_scaled :: "(real \<Rightarrow> real) \<Rightarrow> real \<Rightarrow> real" where
  "depth_scaled f32 d = f32 (f32 (d / 10) * 255)"

definition depth_to_byte :: "(real \<Rightarrow> real) \<Rightarrow> real \<Rightarrow> u8" where
  "depth_to_byte f32 d = astype_uint8_float (depth_scaled f32 d)"

text \<open>Line 285: the depth image that is saved.\<close>

definition depth_image :: "(real \<Rightarrow> real) \<Rightarrow> real ndarray \<Rightarrow> image" where
  "depth_image f32 depth_obs =
     Image_L (shape1 depth_obs, shape0 depth_obs) (map (depth_to_byte f32) (flat depth_obs))"

text \<open>Line 274: \<^verbatim>\<open>Image.fromarray(rgb_obs, mode="RGBA")\<close>.\<close>

definition rgb_image :: "rgba ndarray \<Rightarrow> image" where
  "rgb_image rgb_obs = Image_RGBA (shape1 rgb_obs, shape0 rgb_obs) (flat rgb_obs)"

text \<open>A palette colour as an opaque pixel.\<close>

definition opaque :: "rgb \<Rightarrow> rgba" where
  "opaque c = (case c of (r, g, b) \<Rightarrow> (r, g, b, 255))"

text \<open>Arithmetic in which nothing is rounded.\<close>

definition exact_arith :: "real \<Rightarrow> real" where
  "exact_arith x = x"

section \<open>Camera intrinsics\<close>

text \<open>
  A numpy float result. Dividing by zero does not raise in numpy: it gives an infinity
  (or NaN for 0/0).
\<close>

datatype np_float = Finite real | PosInf | NegInf | NaN

definition np_divide :: "real \<Rightarrow> real \<Rightarrow> np_float" where
  "np_divide a b =
     (if b \<noteq> 0 then Finite (a / b)
      else if 0 < a then PosInf else if a < 0 then NegInf else NaN)"

definition radians :: "real \<Rightarrow> real" where
  "radians x = x * pi / 180"

record camera_info =
  ci_width :: int
  ci_height :: int
  fov :: real
  fx :: np_float
  fy :: np_float
  cx :: real
  cy :: real

section \<open>Settings and configuration\<close>

text \<open>
  The settings dictionary. The keys that \<^verbatim>\<open>make_default_settings\<close> writes are fields; the
  three keys that \<^verbatim>\<open>make_cfg\<close> looks for with \<^verbatim>\<open>in\<close> are optional.
\<close>

record settings =
  width :: int
  height :: int
  scene_dataset :: string
  scene :: string
  default_agent :: int
  sensor_height :: real
  sensor_pitch :: real
  color_sensor :: bool
  depth_sensor :: bool
  semantic_sensor :: bool
  seed :: int
  enable_physics :: bool
  scene_dataset_config :: "string option"
  override_scene_light_defaults :: "bool option"
  scene_light_setup :: "string option"

text \<open>\<^verbatim>\<open>os.path.join\<close> of two components (POSIX).\<close>

definition path_join :: "string \<Rightarrow> string \<Rightarrow> string" where
  "path_join a b =
     (if b \<noteq> [] \<and> hd b = CHR ''/'' then b
      else if a = [] \<or> last a = CHR ''/'' then a @ b
      else a @ ''/'' @ b)"

definition make_default_settings :: "string \<Rightarrow> settings" where
  "make_default_settings data_path =
     (let rgb_sensor = True; depth_sensor = True; semantic_sensor = True in
      \<lparr>width = 1280,
       height = 720,
       scene_dataset = path_join data_path ''replica_cad/replicaCAD.scene_dataset_config.json'',
       scene = ''NONE'',
       default_agent = 0,
       sensor_height = 3 / 2,
       sensor_pitch = 0,
       color_sensor = rgb_sensor,
       depth_sensor = depth_sensor,
       semantic_sensor = semantic_sensor,
       seed = 1,
       enable_physics = True,
       scene_dataset_config = None,
       override_scene_light_defaults = None,
       scene_light_setup = None\<rparr>)"

datatype sensor_type = COLOR | DEPTH | SEMANTIC

datatype sensor_subtype = PINHOLE

text \<open>A camera sensor specification; a field that the script leaves alone is \<open>None\<close>.\<close>

record sensor_spec =
  uuid :: string
  spec_sensor_type :: sensor_type
  resolution :: "int \<times> int"
  position :: vec3
  orientation :: "vec3 option"
  spec_sensor_subtype :: sensor_subtype

record simulator_configuration =
  gpu_device_id :: int
  scene_dataset_config_file :: string
  scene_id :: string
  cfg_enable_physics :: bool
  cfg_override_scene_light_defaults :: "bool option"
  cfg_scene_light_setup :: "string option"

text \<open>
  \<^verbatim>\<open>habitat_sim.Configuration(sim_cfg, [agent_cfg])\<close>: an agent configuration is given by
  its sensor specifications.
\<close>

record configuration =
  sim_cfg :: simulator_configuration
  agents :: "sensor_spec list list"

definition make_cfg :: "settings \<Rightarrow> configuration" where
  "make_cfg settings =
     (let sim_cfg =
            \<lparr>gpu_device_id = 0,
             scene_dataset_config_file =
               (case scene_dataset_config settings of
                  None \<Rightarrow> scene_dataset settings | Some f \<Rightarrow> f),
             scene_id = scene settings,
             cfg_enable_physics = enable_physics settings,
             cfg_override_scene_light_defaults = override_scene_light_defaults settings,
             cfg_scene_light_setup = scene_light_setup settings\<rparr>;
          color_sensor_1st_person_spec =
            \<lparr>uuid = ''color_sensor_1st_person'',
             spec_sensor_type = COLOR,
             resolution = (height settings, width settings),
             position = (0, sensor_height settings, 0),
             orientation = Some (sensor_pitch settings, 0, 0),
             spec_sensor_subtype = PINHOLE\<rparr>;
          depth_sensor_spec =
            \<lparr>uuid = ''depth_sensor'',
             spec_sensor_type = DEPTH,
             resolution = (height settings, width settings),
             position = (0, sensor_height settings, 0),
             orientation = None,
             spec_sensor_subtype = PINHOLE\<rparr>;
          semantic_sensor_spec =
            \<lparr>uuid = ''semantic_sensor'',
             spec_sensor_type = SEMANTIC,
             resolution = (height settings, width settings),
             position = (0, sensor_height settings, 0),
             orientation = None,
             spec_sensor_subtype = PINHOLE\<rparr>;
          sensor_specs = [color_sensor_1st_person_spec, depth_sensor_spec, semantic_sensor_spec]
      in \<lparr>sim_cfg = sim_cfg, agents = [sensor_specs]\<rparr>)"

section \<open>The engine and the program state\<close>

text \<open>
  The simulation engine is outside the script. What the script observes of it is a
  parameter of the model: whether it accepts a configuration, where it puts the agent of a
  new simulator, what the world time is after a physics step, what the sensors return,
  which scene handles it reports and the horizontal field of view of the colour sensor.
\<close>

record engine =
  accepts :: "configuration \<Rightarrow> bool"
  spawn :: "configuration \<Rightarrow> scene_node"
  advance :: "real \<Rightarrow> real \<Rightarrow> real"
  sense :: "configuration \<Rightarrow> scene_node \<Rightarrow> real \<Rightarrow> observation"
  get_scene_handles :: "configuration \<Rightarrow> string list"
  hfov :: "configuration \<Rightarrow> real"

text \<open>A simulator instance. Instances are told apart by \<open>sim_id\<close>.\<close>

record simulator =
  sim_id :: nat
  config :: configuration
  world_time :: real
  agent_node :: scene_node

text \<open>The calls that create and destroy simulator instances, in the order they are made.\<close>

datatype engine_call = Construct nat | Close nat

text \<open>The instances alive after a sequence of such calls.\<close>

definition live_handles :: "engine_call list \<Rightarrow> nat set" where
  "live_handles calls =
     foldl (\<lambda>L c. case c of Construct h \<Rightarrow> insert h L | Close h \<Rightarrow> L - {h}) {} calls"

datatype error =
  EngineError
| AttributeError
| NameError
| TraitError
| OSError string

record snapshot =
  key_observations :: "observation list"
  key_rotations :: "(real \<times> vec3) list list"
  key_translations :: "vec3 list"
  key_camera_info :: camera_info

datatype file_content = PNG image | Pickle snapshot

text \<open>
  The module's globals that the functions share, and the world around them: the simulator
  (\<^verbatim>\<open>sim\<close>, \<open>None\<close> at first), the managers taken from it (each recorded by the instance it
  belongs to), \<^verbatim>\<open>selected_scene\<close> (unbound at first), the engine calls made so far, the
  files on disk, the paths written so far, and which paths can be opened for writing.
\<close>

record state =
  sim :: "simulator option"
  obj_attr_mgr :: "nat option"
  prim_attr_mgr :: "nat option"
  stage_attr_mgr :: "nat option"
  rigid_obj_mgr :: "nat option"
  metadata_mediator :: "nat option"
  selected_scene :: "string option"
  engine_log :: "engine_call list"
  files :: "string \<rightharpoonup> file_content"
  write_log :: "string list"
  writable :: "string \<Rightarrow> bool"

text \<open>The state of a fresh interpreter, given the disk.\<close>

definition initial_state :: "(string \<rightharpoonup> file_content) \<Rightarrow> (string \<Rightarrow> bool) \<Rightarrow> state" where
  "initial_state fs w =
     \<lparr>sim = None, obj_attr_mgr = None, prim_attr_mgr = None, stage_attr_mgr = None,
      rigid_obj_mgr = None, metadata_mediator = None, selected_scene = None,
      engine_log = [], files = fs, write_log = [], writable = w\<rparr>"

text \<open>
  Lines 129 to 157. The new instance is a Python object distinct from every earlier one:
  its id is the number of engine calls made before it. Loading the object configurations
  changes nothing that the script looks at.
\<close>

definition make_simulator_from_settings ::
  "engine \<Rightarrow> settings \<Rightarrow> 'a state_scheme \<Rightarrow> error + 'a state_scheme" where
  "make_simulator_from_settings eng sim_settings st =
     (let cfg = make_cfg sim_settings;
          st1 = (case sim st of
                   None \<Rightarrow> st
                 | Some old \<Rightarrow> st\<lparr>engine_log := engine_log st @ [Close (sim_id old)]\<rparr>)
      in if \<not> accepts eng cfg then Inl EngineError
         else
           let h = length (engine_log st1);
               new = \<lparr>sim_id = h, config = cfg, world_time = 0, agent_node = spawn eng cfg\<rparr>
           in Inr (st1\<lparr>sim := Some new,
                       engine_log := engine_log st1 @ [Construct h],
                       obj_attr_mgr := Some h,
                       prim_attr_mgr := Some h,
                       stage_attr_mgr := Some h,
                       rigid_obj_mgr := Some h,
                       metadata_mediator := Some h,
                       selected_scene := Some ''NONE''\<rparr>))"

text \<open>\<^verbatim>\<open>sim.step_physics(dt)\<close> and \<^verbatim>\<open>sim.get_sensor_observations()\<close>.\<close>

definition step_physics :: "engine \<Rightarrow> real \<Rightarrow> simulator \<Rightarrow> simulator" where
  "step_physics eng dt s = s\<lparr>world_time := advance eng (world_time s) dt\<rparr>"

definition get_sensor_observations :: "engine \<Rightarrow> simulator \<Rightarrow> observation" where
  "get_sensor_observations eng s = sense eng (config s) (agent_node s) (world_time s)"

section \<open>Scene selection\<close>

text \<open>Python's \<^verbatim>\<open>a in b\<close> on strings: \<open>a\<close> occurs in \<open>b\<close> as a contiguous substring.\<close>

fun starts_with :: "string \<Rightarrow> string \<Rightarrow> bool" where
  "starts_with [] s = True"
| "starts_with (c # cs) [] = False"
| "starts_with (c # cs) (d # ds) = (c = d \<and> starts_with cs ds)"

fun str_in :: "string \<Rightarrow> string \<Rightarrow> bool" where
  "str_in a [] = (a = [])"
| "str_in a (d # ds) = (starts_with a (d # ds) \<or> str_in a ds)"

text \<open>The \<^verbatim>\<open>for\<close> loop of lines 229 to 232, from the selection stored before it.\<close>

fun first_valid :: "string list \<Rightarrow> string option \<Rightarrow> string option" where
  "first_valid [] sel = sel"
| "first_valid (scene_handle # rest) sel =
     (if \<not> str_in ''NONE'' scene_handle then Some scene_handle else first_valid rest sel)"

text \<open>\<^verbatim>\<open>on_scene_ddl_change\<close>, given the new value of the dropdown.\<close>

definition on_scene_ddl_change :: "string \<Rightarrow> 'a state_scheme \<Rightarrow> string \<times> 'a state_scheme" where
  "on_scene_ddl_change new st = (new, st\<lparr>selected_scene := Some new\<rparr>)"

text \<open>
  \<^verbatim>\<open>build_widget_ui\<close>, given \<^verbatim>\<open>HAS_WIDGETS\<close> and the handles that the mediator reports. With
  widgets the dropdown is built with the handles as its options and the stored selection
  as its value: the selection is read (and must be bound), the widget library refuses a
  value that is not among the options, and the selection is assigned back unchanged.
\<close>

definition build_widget_ui ::
  "bool \<Rightarrow> string list \<Rightarrow> 'a state_scheme \<Rightarrow> error + 'a state_scheme" where
  "build_widget_ui HAS_WIDGETS scene_handles st =
     (let st1 = (if length scene_handles = 0 then st\<lparr>selected_scene := Some ''NONE''\<rparr>
                 else st\<lparr>selected_scene := first_valid scene_handles (selected_scene st)\<rparr>)
      in if \<not> HAS_WIDGETS then Inr st1
         else (case selected_scene st1 of
                 None \<Rightarrow> Inl NameError
               | Some sel_handle \<Rightarrow>
                   if sel_handle \<notin> set scene_handles then Inl TraitError
                   else Inr (st1\<lparr>selected_scene := Some sel_handle\<rparr>)))"

text \<open>
  Lines 311 to 314: the selection is read once, and the simulator rebuilt if the settings
  name another scene.
\<close>

definition load_selected_scene ::
  "engine \<Rightarrow> settings \<Rightarrow> 'a state_scheme \<Rightarrow> error + settings \<times> 'a state_scheme" where
  "load_selected_scene eng sim_settings st =
     (case selected_scene st of
        None \<Rightarrow> Inl NameError
      | Some sel \<Rightarrow>
          if scene sim_settings \<noteq> sel then
            (let sim_settings' = sim_settings\<lparr>scene := sel\<rparr> in
             case make_simulator_from_settings eng sim_settings' st of
               Inl e \<Rightarrow> Inl e
             | Inr st' \<Rightarrow> Inr (sim_settings', st'))
          else Inr (sim_settings, st))"

section \<open>Saving one sample\<close>

text \<open>\<^verbatim>\<open>str\<close> of an integer, as an f-string renders it.\<close>

definition digit_char :: "nat \<Rightarrow> char" where
  "digit_char d = ''0123456789'' ! d"

function str_nat :: "nat \<Rightarrow> string" where
  "str_nat n = (if n < 10 then [digit_char n] else str_nat (n div 10) @ [digit_char (n mod 10)])"
  by pat_completeness auto
termination
  by (relation "measure (\<lambda>n. n)") auto

definition str_int :: "int \<Rightarrow> string" where
  "str_int i = (if i < 0 then CHR ''-'' # str_nat (nat (- i)) else str_nat (nat i))"

text \<open>
  Opening a path for writing and writing the whole content: it fails if the path cannot be
  opened, and replaces whatever the path held otherwise.
\<close>

definition write_file :: "string \<Rightarrow> file_content \<Rightarrow> 'a state_scheme \<Rightarrow> error + 'a state_scheme" where
  "write_file path c st =
     (if writable st path
      then Inr (st\<lparr>files := (files st)(path \<mapsto> c), write_log := write_log st @ [path]\<rparr>)
      else Inl (OSError path))"

text \<open>Lines 270 to 286, with the colour table and the rounding as parameters.\<close>

definition save_sample ::
  "rgb list \<Rightarrow> (real \<Rightarrow> real) \<Rightarrow> rgba ndarray \<Rightarrow> int ndarray \<Rightarrow> real ndarray \<Rightarrow> int \<Rightarrow> string
     \<Rightarrow> 'a state_scheme \<Rightarrow> error + 'a state_scheme" where
  "save_sample colors f32 rgb_obs semantic_obs depth_obs idx save_path st =
     (case write_file (save_path @ ''/rgb_image_'' @ str_int idx @ ''.png'')
             (PNG (rgb_image rgb_obs)) st of
        Inl e \<Rightarrow> Inl e
      | Inr st1 \<Rightarrow>
          (case write_file (save_path @ ''/semantic_image_'' @ str_int idx @ ''.png'')
                  (PNG (semantic_image colors semantic_obs)) st1 of
             Inl e \<Rightarrow> Inl e
           | Inr st2 \<Rightarrow>
               write_file (save_path @ ''/depth_image_'' @ str_int idx @ ''.png'')
                 (PNG (depth_image f32 depth_obs)) st2))"

section \<open>The run\<close>

text \<open>
  What a run is given: the engine, the engine's colour table, single-precision rounding,
  the repository directory, whether the widget library could be imported, the two command
  line flags, and the values the user picks in the dropdown before the scene is loaded.
\<close>

record env =
  engine_of :: engine
  d3_40_colors_rgb :: "rgb list"
  float32 :: "real \<Rightarrow> real"
  dir_path :: string
  HAS_WIDGETS :: bool
  display :: bool
  make_video :: bool
  dropdown_choices :: "string list"

text \<open>The globals of the last cell, on top of the shared ones (\<^verbatim>\<open>translations\<close> is
  \<open>translations_list\<close> here).\<close>

record run = state +
  sim_settings :: settings
  observations :: "observation list"
  translations_list :: "vec3 list"
  rotations :: "(real \<times> vec3) list list"
  start_time :: real
  count :: int

text \<open>Lines 323 to 346: one iteration of the trajectory loop.\<close>

definition loop_body :: "env \<Rightarrow> run \<Rightarrow> error + run" where
  "loop_body E r =
     (case sim r of
        None \<Rightarrow> Inl AttributeError
      | Some s \<Rightarrow>
          let s1 = s\<lparr>agent_node := pose_update (count r) (agent_node s)\<rparr>;
              s2 = step_physics (engine_of E) (1 / 30) s1;
              r1 = r\<lparr>sim := Some s2\<rparr>
          in if make_video E then
               let observation = get_sensor_observations (engine_of E) s2;
                   r2 = r1\<lparr>observations := observations r1 @ [observation]\<rparr>;
                   rgb = obs_color_sensor_1st_person observation;
                   semantic = obs_semantic_sensor observation;
                   depth = obs_depth_sensor observation;
                   translation = translation (agent_node s2);
                   rotation = rotation (agent_node s2);
                   r3 = r2\<lparr>translations_list := translations_list r2 @ [translation]\<rparr>;
                   r4 = r3\<lparr>rotations := rotations r3 @ [rotation]\<rparr>
               in if display E then
                    (case save_sample (d3_40_colors_rgb E) (float32 E) rgb semantic depth
                            (count r4) (dir_path E @ ''/output'') r4 of
                       Inl e \<Rightarrow> Inl e
                     | Inr r5 \<Rightarrow> Inr (r5\<lparr>count := count r5 + 1\<rparr>))
                  else Inr r4
             else Inr r1)"

text \<open>
  Line 322: the loop runs while the world time is below the start time plus four seconds.
  Whether it ends depends on the engine, so the result is optional: \<open>None\<close> is a loop that
  runs forever.
\<close>

partial_function (option) trajectory_loop :: "env \<Rightarrow> run \<Rightarrow> (error + run) option" where
  "trajectory_loop E r =
     (case sim r of
        None \<Rightarrow> Some (Inl AttributeError)
      | Some s \<Rightarrow>
          if world_time s < start_time r + 4 then
            (case loop_body E r of
               Inl e \<Rightarrow> Some (Inl e)
             | Inr r' \<Rightarrow> trajectory_loop E r')
          else Some (Inr r))"

text \<open>
  The state after \<open>n\<close> iterations of the loop body (an error ends them), to speak about what
  holds while the loop runs.
\<close>

fun loop_steps :: "env \<Rightarrow> nat \<Rightarrow> run \<Rightarrow> error + run" where
  "loop_steps E 0 r = Inr r"
| "loop_steps E (Suc n) r =
     (case loop_body E r of Inl e \<Rightarrow> Inl e | Inr r' \<Rightarrow> loop_steps E n r')"

text \<open>Lines 349 to 353.\<close>

definition camera_intrinsics :: "settings \<Rightarrow> real \<Rightarrow> camera_info" where
  "camera_intrinsics settings F =
     (let width = width settings;
          height = height settings;
          fov = F;
          fx = np_divide (0.5 * of_int width) (tan (radians fov / 2));
          fy = fx;
          cx = of_int width / 2;
          cy = of_int height / 2
      in \<lparr>ci_width = width, ci_height = height, fov = fov, fx = fx, fy = fy, cx = cx, cy = cy\<rparr>)"

text \<open>Lines 354 to 359.\<close>

definition data_to_save :: "run \<Rightarrow> camera_info \<Rightarrow> snapshot" where
  "data_to_save r camera_info =
     \<lparr>key_observations = observations r,
      key_rotations = rotations r,
      key_translations = translations_list r,
      key_camera_info = camera_info\<rparr>"

definition output_filename :: "string \<Rightarrow> string" where
  "output_filename dir = dir @ ''/output/data.pkl''"

text \<open>Lines 349 to 363: the snapshot is built and written.\<close>

definition save_to_pickle :: "env \<Rightarrow> run \<Rightarrow> error + run" where
  "save_to_pickle E r =
     (case sim r of
        None \<Rightarrow> Inl AttributeError
      | Some s \<Rightarrow>
          let fov = hfov (engine_of E) (config s);
              camera_info = camera_intrinsics (sim_settings r) fov
          in write_file (output_filename (dir_path E)) (Pickle (data_to_save r camera_info)) r)"

text \<open>Lines 316 to 321: the globals of the loop, and the agent put at its start position.\<close>

definition start_run :: "settings \<Rightarrow> simulator \<Rightarrow> state \<Rightarrow> run" where
  "start_run settings s st =
     (state.extend st (run.fields settings [] [] [] (world_time s) 1))
       \<lparr>sim := Some (s\<lparr>agent_node := (agent_node s)\<lparr>translation := (- 2, 0, 0)\<rparr>\<rparr>)\<rparr>"

text \<open>
  The script from line 296 on, from a given state of the globals and the disk. An error
  ends the run where it is raised.
\<close>

definition script :: "env \<Rightarrow> state \<Rightarrow> (error + run) option" where
  "script E st0 =
     (let data_path = path_join (dir_path E) ''data'';
          settings = make_default_settings data_path
      in case make_simulator_from_settings (engine_of E) settings st0 of
           Inl e \<Rightarrow> Some (Inl e)
         | Inr st1 \<Rightarrow>
         (case sim st1 of
            None \<Rightarrow> Some (Inl AttributeError)
          | Some s1 \<Rightarrow>
          (case build_widget_ui (HAS_WIDGETS E)
                  (get_scene_handles (engine_of E) (config s1)) st1 of
             Inl e \<Rightarrow> Some (Inl e)
           | Inr st2 \<Rightarrow>
           (let st3 = (if HAS_WIDGETS E
                       then foldl (\<lambda>st new. snd (on_scene_ddl_change new st)) st2
                              (dropdown_choices E)
                       else st2)
            in case load_selected_scene (engine_of E) settings st3 of
                 Inl e \<Rightarrow> Some (Inl e)
               | Inr (settings', st4) \<Rightarrow>
               (case sim st4 of
                  None \<Rightarrow> Some (Inl AttributeError)
                | Some s4 \<Rightarrow>
                (case trajectory_loop E (start_run settings' s4 st4) of
                   None \<Rightarrow> None
                 | Some (Inl e) \<Rightarrow> Some (Inl e)
                 | Some (Inr r) \<Rightarrow> Some (save_to_pickle E r)))))))"

section \<open>The scene selection as the specification words it\<close>

text \<open>
  The specification's rule for the selection without widgets: the first handle that is
  not the sentinel \<^verbatim>\<open>NONE\<close>, or the sentinel if there is none.
\<close>

definition spec_choose_scene :: "string list \<Rightarrow> string" where
  "spec_choose_scene handles =
     (case find (\<lambda>h. h \<noteq> ''NONE'') handles of Some h \<Rightarrow> h | None \<Rightarrow> ''NONE'')"

section \<open>The depth conversion as the specification words it\<close>

text \<open>
  The specification's rule for a depth value: scale by \<open>255/10\<close>, drop the fraction, and
  keep the result in the range 0 to 255 of a byte.
\<close>

definition spec_depth_to_byte :: "real \<Rightarrow> u8" where
  "spec_depth_to_byte d = word_of_int (max 0 (min 255 \<lfloor>d * (255 / 10)\<rfloor>))"

section \<open>Concrete instances\<close>

text \<open>
  A small engine to run the model on: it accepts every configuration, puts the agent at
  the origin, advances the world time by sixty times the requested step (two seconds for
  the step of the trajectory loop), returns one-pixel buffers, reports the sentinel and
  one scene, and has a field of view of 90 degrees.
\<close>

definition example_observation :: observation where
  "example_observation =
     \<lparr>obs_color_sensor_1st_person = \<lparr>shape0 = 1, shape1 = 1, flat = [(1, 2, 3, 255)]\<rparr>,
      obs_semantic_sensor = \<lparr>shape0 = 1, shape1 = 1, flat = [83]\<rparr>,
      obs_depth_sensor = \<lparr>shape0 = 1, shape1 = 1, flat = [10]\<rparr>\<rparr>"

definition example_engine :: engine where
  "example_engine =
     \<lparr>accepts = (\<lambda>cfg. True),
      spawn = (\<lambda>cfg. \<lparr>translation = (0, 0, 0), rotation = []\<rparr>),
      advance = (\<lambda>t dt. t + 60 * dt),
      sense = (\<lambda>cfg n t. example_observation),
      get_scene_handles = (\<lambda>cfg. [''NONE'', ''apt_0'']),
      hfov = (\<lambda>cfg. 90)\<rparr>"

text \<open>A fresh interpreter on an empty disk where every path can be written.\<close>

definition example_state :: state where
  "example_state = initial_state Map.empty (\<lambda>p. True)"

text \<open>A simulator on the default settings, at world time zero.\<close>

definition example_simulator :: simulator where
  "example_simulator =
     \<lparr>sim_id = 0, config = make_cfg (make_default_settings ''/repo/data''), world_time = 0,
      agent_node = \<lparr>translation = (0, 0, 0), rotation = []\<rparr>\<rparr>"

definition example_env :: "bool \<Rightarrow> bool \<Rightarrow> env" where
  "example_env disp video =
     \<lparr>engine_of = example_engine,
      d3_40_colors_rgb = replicate 40 (9, 9, 9),
      float32 = (\<lambda>x. x),
      dir_path = ''/repo'',
      HAS_WIDGETS = False,
      display = disp,
      make_video = video,
      dropdown_choices = []\<rparr>"

text \<open>
  The same with the widget library present, and a user who picks the scene in the
  dropdown.
\<close>

definition example_env_widgets :: env where
  "example_env_widgets =
     (example_env True True)\<lparr>HAS_WIDGETS := True, dropdown_choices := [''apt_0'']\<rparr>"

section \<open>Properties of the saved images\<close>

lemma write_file_Inr:
  "write_file path c st = Inr st' \<Longrightarrow>
     st' = st\<lparr>files := (files st)(path \<mapsto> c), write_log := write_log st @ [path]\<rparr> \<and>
     writable st path"
  by (simp add: write_file_def split: if_splits)

lemma save_sample_Inr:
  assumes "save_sample colors f32 rgb_obs semantic_obs depth_obs idx save_path st = Inr st'"
  shows "st' = st\<lparr>files := (files st)
             (save_path @ ''/rgb_image_'' @ str_int idx @ ''.png'' \<mapsto> PNG (rgb_image rgb_obs),
              save_path @ ''/semantic_image_'' @ str_int idx @ ''.png''
                \<mapsto> PNG (semantic_image colors semantic_obs),
              save_path @ ''/depth_image_'' @ str_int idx @ ''.png''
                \<mapsto> PNG (depth_image f32 depth_obs)),
           write_log := write_log st @
             [save_path @ ''/rgb_image_'' @ str_int idx @ ''.png'',
              save_path @ ''/semantic_image_'' @ str_int idx @ ''.png'',
              save_path @ ''/depth_image_'' @ str_int idx @ ''.png'']\<rparr>"
  using assms
  by (auto simp: save_sample_def split: sum.splits dest!: write_file_Inr)

lemma save_sample_files:
  assumes "save_sample colors f32 rgb_obs semantic_obs depth_obs idx save_path st = Inr st'"
  shows "files st' (save_path @ ''/depth_image_'' @ str_int idx @ ''.png'')
           = Some (PNG (depth_image f32 depth_obs))"
    and "files st' (save_path @ ''/semantic_image_'' @ str_int idx @ ''.png'')
           = Some (PNG (semantic_image colors semantic_obs))"
    and "files st' (save_path @ ''/rgb_image_'' @ str_int idx @ ''.png'')
           = Some (PNG (rgb_image rgb_obs))"
  by (simp_all add: save_sample_Inr [OF assms])

subsection \<open>The semantic image\<close>

lemma length_flatten_colors: "length (flatten_colors cs) = 3 * length cs"
  by (induction cs) (auto simp: flatten_colors_def)

lemma flatten_colors_nth:
  "k < length cs \<Longrightarrow>
     flatten_colors cs ! (3 * k) = fst (cs ! k) \<and>
     flatten_colors cs ! (3 * k + 1) = fst (snd (cs ! k)) \<and>
     flatten_colors cs ! (3 * k + 2) = snd (snd (cs ! k))"
proof (induction cs arbitrary: k)
  case Nil
  then show ?case by simp
next
  case (Cons c cs)
  obtain r g b where c: "c = (r, g, b)" by (cases c) auto
  have unfold: "flatten_colors (c # cs) = r # g # b # flatten_colors cs"
    by (simp add: flatten_colors_def c)
  show ?case
  proof (cases k)
    case 0
    then show ?thesis by (simp add: flatten_colors_def c)
  next
    case (Suc j)
    then have j: "j < length cs" using Cons.prems by simp
    have "3 * k = Suc (Suc (Suc (3 * j)))" using Suc by simp
    then show ?thesis using Cons.IH [OF j] Suc by (simp add: unfold)
  qed
qed

lemma unat_semantic_index: "unat (semantic_index v) = nat (v mod 40)"
  by (simp add: semantic_index_def astype_uint8_int_def unat_eq_nat_uint uint_word_of_int
      take_bit_eq_mod)

lemma palette_rgba_semantic:
  assumes "length colors = 40"
  shows "palette_rgba (flatten_colors colors) (semantic_index v) = opaque (colors ! nat (v mod 40))"
proof -
  let ?k = "nat (v mod 40)"
  have k: "?k < length colors" using assms by (simp add: nat_less_iff)
  have "3 * ?k + 2 < length (flatten_colors colors)"
    using k by (simp add: length_flatten_colors)
  then show ?thesis
    using flatten_colors_nth [OF k]
    by (simp add: palette_rgba_def unat_semantic_index opaque_def split: prod.splits)
qed

lemma semantic_image_eq:
  assumes "length colors = 40" "length (flat sem) = shape0 sem * shape1 sem"
  shows "semantic_image colors sem =
      Image_RGBA (shape1 sem, shape0 sem) (map (\<lambda>v. opaque (colors ! nat (v mod 40))) (flat sem))"
  using assms
  by (simp add: semantic_image_def convert_RGBA_def putdata_def putpalette_def Image_new_P_def
      palette_rgba_semantic mult.commute)

text \<open>
  Claim C5. Every semantic value \<open>v\<close> becomes the palette index \<open>v mod 40\<close>, so 83 becomes 3;
  the index is below 40, and with the engine's table of 40 colours the semantic image that
  \<^verbatim>\<open>save_sample\<close> writes shows, at each pixel, the colour that the table has at index
  \<open>v mod 40\<close> for the buffer's value \<open>v\<close> there.
\<close>

theorem semantic_palette_index:
  "unat (semantic_index v) = nat (v mod 40) \<and>
   unat (semantic_index v) < 40 \<and>
   semantic_index 83 = 3 \<and>
   (save_sample colors f32 rgb_obs semantic_obs depth_obs idx save_path st = Inr st' \<and>
    length colors = 40 \<and>
    length (flat semantic_obs) = shape0 semantic_obs * shape1 semantic_obs \<longrightarrow>
      files st' (save_path @ ''/semantic_image_'' @ str_int idx @ ''.png'') =
        Some (PNG (Image_RGBA (shape1 semantic_obs, shape0 semantic_obs)
                (map (\<lambda>v. opaque (colors ! nat (v mod 40))) (flat semantic_obs)))))"
proof -
  have below: "unat (semantic_index v) < 40"
    by (simp add: unat_semantic_index nat_less_iff)
  have at_83: "semantic_index 83 = 3"
    by (simp add: semantic_index_def astype_uint8_int_def)
  have written:
    "files st' (save_path @ ''/semantic_image_'' @ str_int idx @ ''.png'') =
       Some (PNG (Image_RGBA (shape1 semantic_obs, shape0 semantic_obs)
               (map (\<lambda>v. opaque (colors ! nat (v mod 40))) (flat semantic_obs))))"
    if "save_sample colors f32 rgb_obs semantic_obs depth_obs idx save_path st = Inr st'"
      and "length colors = 40"
      and "length (flat semantic_obs) = shape0 semantic_obs * shape1 semantic_obs"
    using save_sample_files(2) [OF that(1)] semantic_image_eq [OF that(2,3)] by (simp only:)
  show ?thesis
    using below at_83 written unat_semantic_index by blast
qed

theorem semantic_palette_index_witness:
  "\<exists>st'. save_sample (replicate 3 (0, 0, 0) @ [(7, 8, 9)] @ replicate 36 (1, 2, 3)) (\<lambda>x. x)
      \<lparr>shape0 = 1, shape1 = 2, flat = [(0, 0, 0, 255), (0, 0, 0, 255)]\<rparr>
      \<lparr>shape0 = 1, shape1 = 2, flat = [83, 5]\<rparr>
      \<lparr>shape0 = 1, shape1 = 2, flat = [10, 0]\<rparr>
      1 ''/repo/output'' (initial_state Map.empty (\<lambda>p. True)) = Inr st' \<and>
    files st' ''/repo/output/semantic_image_1.png'' =
      Some (PNG (Image_RGBA (2, 1) [(7, 8, 9, 255), (1, 2, 3, 255)]))"
proof -
  let ?colors = "replicate 3 (0, 0, 0) @ [(7, 8, 9)] @ replicate 36 (1, 2, 3) :: rgb list"
  let ?sem = "\<lparr>shape0 = 1, shape1 = 2, flat = [83, 5 :: int]\<rparr>"
  obtain st' where run:
    "save_sample ?colors (\<lambda>x. x)
       \<lparr>shape0 = 1, shape1 = 2, flat = [(0, 0, 0, 255), (0, 0, 0, 255)]\<rparr> ?sem
       \<lparr>shape0 = 1, shape1 = 2, flat = [10, 0]\<rparr>
       1 ''/repo/output'' (initial_state Map.empty (\<lambda>p. True)) = Inr st'"
    by (simp add: save_sample_def write_file_def initial_state_def)
  have "files st' ''/repo/output/semantic_image_1.png'' =
      Some (PNG (Image_RGBA (2, 1) [(7, 8, 9, 255), (1, 2, 3, 255)]))"
    using semantic_palette_index [of 83 ?colors "\<lambda>x. x" _ ?sem _ 1 "''/repo/output''" _ st'] run
    by (simp add: str_int_def digit_char_def opaque_def nth_append)
  with run show ?thesis by blast
qed

subsection \<open>The depth image\<close>

lemma astype_uint8_float_range:
  assumes "0 \<le> y" "y < 256"
  shows "real (unat (astype_uint8_float y)) \<le> y \<and> y < real (unat (astype_uint8_float y)) + 1"
proof -
  have f: "0 \<le> \<lfloor>y\<rfloor>" "\<lfloor>y\<rfloor> < 256" using assms by (simp_all add: floor_less_iff)
  have "unat (astype_uint8_float y) = nat \<lfloor>y\<rfloor>"
    using assms f
    by (simp add: astype_uint8_float_def unat_eq_nat_uint uint_word_of_int take_bit_eq_mod)
  moreover have "real (nat \<lfloor>y\<rfloor>) = of_int \<lfloor>y\<rfloor>" using f by simp
  ultimately show ?thesis by simp
qed

lemma depth_scaled_error:
  assumes e: "0 \<le> e"
    and a: "\<bar>f32 (d / 10) - d / 10\<bar> \<le> e * \<bar>d / 10\<bar>"
    and b: "\<bar>depth_scaled f32 d - f32 (d / 10) * 255\<bar> \<le> e * \<bar>f32 (d / 10) * 255\<bar>"
  shows "\<bar>depth_scaled f32 d - d * (255 / 10)\<bar> \<le> (2 * e + e\<^sup>2) * \<bar>d * (255 / 10)\<bar>"
proof -
  define x where "x = d / 10"
  define a where "a = f32 x"
  define y where "y = depth_scaled f32 d"
  have 1: "\<bar>a - x\<bar> \<le> e * \<bar>x\<bar>" using assms(2) by (simp add: a_def x_def)
  have 2: "\<bar>y - a * 255\<bar> \<le> e * \<bar>a\<bar> * 255" using b by (simp add: a_def x_def y_def abs_mult)
  have "\<bar>a\<bar> \<le> \<bar>x\<bar> + e * \<bar>x\<bar>" using 1 by linarith
  then have "e * \<bar>a\<bar> \<le> e * (\<bar>x\<bar> + e * \<bar>x\<bar>)" using e by (rule mult_left_mono)
  then have 3: "e * \<bar>a\<bar> * 255 \<le> (e + e\<^sup>2) * \<bar>x\<bar> * 255"
    by (simp add: algebra_simps power2_eq_square)
  have "\<bar>y - x * 255\<bar> \<le> \<bar>y - a * 255\<bar> + \<bar>a - x\<bar> * 255" by (simp add: abs_if split: if_splits)
  also have "\<dots> \<le> (e + e\<^sup>2) * \<bar>x\<bar> * 255 + e * \<bar>x\<bar> * 255" using 1 2 3 by linarith
  also have "\<dots> = (2 * e + e\<^sup>2) * \<bar>x * 255\<bar>" by (simp add: algebra_simps abs_mult)
  finally show ?thesis by (simp add: x_def y_def algebra_simps)
qed

lemma uint_astype_uint8_float:
  "uint (astype_uint8_float y) = (if 0 \<le> y then \<lfloor>y\<rfloor> else \<lceil>y\<rceil>) mod 256"
  by (simp add: astype_uint8_float_def uint_word_of_int take_bit_eq_mod)

text \<open>
  Claim C4 as stated fails: the conversion does not keep the scaled value in the range of
  a byte. A depth of 20 scales to 510 and is written as 254, and a depth of 10.04 scales
  to just over 256 and is written as 0, where the specification's rule gives 255.
\<close>

theorem depth_to_byte_counterexample:
  "depth_to_byte exact_arith 20 = 254 \<and> spec_depth_to_byte 20 = 255 \<and>
   depth_to_byte exact_arith (1004 / 100) = 0 \<and> spec_depth_to_byte (1004 / 100) = 255"
  by (simp add: depth_to_byte_def depth_scaled_def exact_arith_def astype_uint8_float_def
      spec_depth_to_byte_def)

text \<open>
  Claim C4, amended. \<^verbatim>\<open>save_sample\<close> turns each depth value \<open>d\<close> into a byte as follows. The
  value is scaled: divided by 10 and multiplied by 255, each operation rounded to single
  precision, so that the scaled value is \<open>d\<close> times \<open>255/10\<close> up to these two roundings
  (exactly that when nothing is rounded). The byte is the integer part of the scaled value
  modulo 256: the scaled value with its fraction dropped when it is in the range of a
  byte, and wrapped around, not clipped, when it is not. With a rounding that is exact at
  0, 1 and 255 (single precision is), depth 10 gives byte 255 and depth 0 gives byte 0.
  The depth image that is written holds these bytes.
\<close>

theorem depth_to_byte_rescale:
  "(f32 0 = 0 \<and> f32 1 = 1 \<and> f32 255 = 255 \<longrightarrow>
      depth_to_byte f32 10 = 255 \<and> depth_to_byte f32 0 = 0) \<and>
   uint (depth_to_byte f32 d) =
     (if 0 \<le> depth_scaled f32 d then \<lfloor>depth_scaled f32 d\<rfloor> else \<lceil>depth_scaled f32 d\<rceil>) mod 256 \<and>
   (0 \<le> depth_scaled f32 d \<and> depth_scaled f32 d < 256 \<longrightarrow>
      real (unat (depth_to_byte f32 d)) \<le> depth_scaled f32 d \<and>
      depth_scaled f32 d < real (unat (depth_to_byte f32 d)) + 1) \<and>
   (0 \<le> e \<and> \<bar>f32 (d / 10) - d / 10\<bar> \<le> e * \<bar>d / 10\<bar> \<and>
    \<bar>depth_scaled f32 d - f32 (d / 10) * 255\<bar> \<le> e * \<bar>f32 (d / 10) * 255\<bar> \<longrightarrow>
      \<bar>depth_scaled f32 d - d * (255 / 10)\<bar> \<le> (2 * e + e\<^sup>2) * \<bar>d * (255 / 10)\<bar>) \<and>
   (save_sample colors f32 rgb_obs semantic_obs depth_obs idx save_path st = Inr st' \<longrightarrow>
      files st' (save_path @ ''/depth_image_'' @ str_int idx @ ''.png'') =
        Some (PNG (Image_L (shape1 depth_obs, shape0 depth_obs)
                (map (depth_to_byte f32) (flat depth_obs)))))"
proof -
  have exact: "depth_to_byte f32 10 = 255 \<and> depth_to_byte f32 0 = 0"
    if "f32 0 = 0" "f32 1 = 1" "f32 255 = 255"
    using that by (simp add: depth_to_byte_def depth_scaled_def astype_uint8_float_def)
  have written: "files st' (save_path @ ''/depth_image_'' @ str_int idx @ ''.png'') =
        Some (PNG (Image_L (shape1 depth_obs, shape0 depth_obs)
                (map (depth_to_byte f32) (flat depth_obs))))"
    if "save_sample colors f32 rgb_obs semantic_obs depth_obs idx save_path st = Inr st'"
    using save_sample_files(1) [OF that] by (simp only: depth_image_def)
  show ?thesis
    using exact written uint_astype_uint8_float [of "depth_scaled f32 d"]
      astype_uint8_float_range [of "depth_scaled f32 d"]
      depth_scaled_error [of e f32 d]
    unfolding depth_to_byte_def [of f32 d] by blast
qed

theorem depth_to_byte_rescale_witness:
  "depth_to_byte exact_arith 10 = 255 \<and> depth_to_byte exact_arith 0 = 0 \<and>
   uint (depth_to_byte exact_arith 20) = 254 \<and>
   uint (depth_to_byte exact_arith (- 1)) = 231 \<and>
   real (unat (depth_to_byte exact_arith 1)) \<le> 255 / 10 \<and>
   255 / 10 < real (unat (depth_to_byte exact_arith 1)) + 1 \<and>
   \<bar>depth_scaled exact_arith 1 - 1 * (255 / 10)\<bar> \<le> 0 \<and>
   (\<exists>st'. save_sample [] exact_arith
      \<lparr>shape0 = 1, shape1 = 3, flat = [(0, 0, 0, 255), (0, 0, 0, 255), (0, 0, 0, 255)]\<rparr>
      \<lparr>shape0 = 1, shape1 = 3, flat = [83, 5, 7]\<rparr>
      \<lparr>shape0 = 1, shape1 = 3, flat = [10, 1, 20]\<rparr>
      1 ''/repo/output'' (initial_state Map.empty (\<lambda>p. True)) = Inr st' \<and>
    files st' ''/repo/output/depth_image_1.png'' = Some (PNG (Image_L (3, 1) [255, 25, 254])))"
proof -
  let ?depth = "\<lparr>shape0 = 1, shape1 = 3, flat = [10, 1, 20 :: real]\<rparr>"
  obtain st' where run:
    "save_sample [] exact_arith
       \<lparr>shape0 = 1, shape1 = 3, flat = [(0, 0, 0, 255), (0, 0, 0, 255), (0, 0, 0, 255)]\<rparr>
       \<lparr>shape0 = 1, shape1 = 3, flat = [83, 5, 7]\<rparr> ?depth
       1 ''/repo/output'' (initial_state Map.empty (\<lambda>p. True)) = Inr st'"
    by (simp add: save_sample_def write_file_def initial_state_def)
  note at_1 = depth_to_byte_rescale [of exact_arith 1 0 "[]" _ _ ?depth 1 "''/repo/output''" _ st']
  have exact: "depth_to_byte exact_arith 10 = 255 \<and> depth_to_byte exact_arith 0 = 0"
    using at_1 [THEN conjunct1] by (simp add: exact_arith_def)
  have wrap: "uint (depth_to_byte exact_arith 20) = 254"
    using depth_to_byte_rescale [of exact_arith 20 0, THEN conjunct2, THEN conjunct1]
    by (simp add: depth_scaled_def exact_arith_def)
  have below: "uint (depth_to_byte exact_arith (- 1)) = 231"
    using depth_to_byte_rescale [of exact_arith "- 1" 0, THEN conjunct2, THEN conjunct1]
    by (simp add: depth_scaled_def exact_arith_def)
  have inside: "real (unat (depth_to_byte exact_arith 1)) \<le> 255 / 10 \<and>
      255 / 10 < real (unat (depth_to_byte exact_arith 1)) + 1"
    using at_1 [THEN conjunct2, THEN conjunct2, THEN conjunct1]
    by (simp add: depth_scaled_def exact_arith_def)
  have scale: "\<bar>depth_scaled exact_arith 1 - 1 * (255 / 10)\<bar> \<le> 0"
    using at_1 [THEN conjunct2, THEN conjunct2, THEN conjunct2, THEN conjunct1]
    by (simp add: depth_scaled_def exact_arith_def)
  have bytes: "depth_to_byte exact_arith 10 = 255" "depth_to_byte exact_arith 1 = 25"
    "depth_to_byte exact_arith 20 = 254"
    by (simp_all add: depth_to_byte_def depth_scaled_def exact_arith_def astype_uint8_float_def)
  have written: "files st' ''/repo/output/depth_image_1.png'' =
      Some (PNG (Image_L (3, 1) [255, 25, 254]))"
    using at_1 [THEN conjunct2, THEN conjunct2, THEN conjunct2, THEN conjunct2, THEN mp, OF run]
    by (simp add: bytes str_int_def digit_char_def)
  show ?thesis
    using exact wrap below inside scale run written by blast
qed

section \<open>Properties of the simulator lifecycle\<close>

lemma example_engine_simps:
  "accepts example_engine cfg"
  "advance example_engine t dt = t + 60 * dt"
  "hfov example_engine cfg = 90"
  "get_scene_handles example_engine cfg = [''NONE'', ''apt_0'']"
  by (simp_all add: example_engine_def)

lemma example_env_simps:
  "engine_of (example_env disp video) = example_engine"
  "display (example_env disp video) = disp"
  "make_video (example_env disp video) = video"
  "dir_path (example_env disp video) = ''/repo''"
  by (simp_all add: example_env_def)

lemma live_handles_snoc:
  "live_handles (calls @ [c]) =
     (case c of Construct h \<Rightarrow> insert h (live_handles calls) | Close h \<Rightarrow> live_handles calls - {h})"
  by (cases c) (simp_all add: live_handles_def)

lemma live_handles_Nil: "live_handles [] = {}"
  by (simp add: live_handles_def)

lemma make_simulator_Inr:
  assumes "make_simulator_from_settings eng settings st = Inr st'"
  shows "accepts eng (make_cfg settings)"
    and "\<exists>new. sim st' = Some new \<and> config new = make_cfg settings \<and> world_time new = 0 \<and>
           agent_node new = spawn eng (make_cfg settings) \<and>
           engine_log st' = engine_log st
               @ (case sim st of None \<Rightarrow> [] | Some old \<Rightarrow> [Close (sim_id old)])
               @ [Construct (sim_id new)]"
    and "selected_scene st' = Some ''NONE''"
    and "files st' = files st" "write_log st' = write_log st" "writable st' = writable st"
  using assms
  by (auto simp: make_simulator_from_settings_def Let_def split: if_splits option.splits)

lemma make_simulator_accepts:
  assumes "accepts eng (make_cfg settings)"
  shows "\<exists>st'. make_simulator_from_settings eng settings st = Inr st'"
  using assms by (simp add: make_simulator_from_settings_def Let_def)

text \<open>
  Claim C7. Take a state in which the simulator that the global \<^verbatim>\<open>sim\<close> names, if any, is
  the only one alive, and settings that the engine accepts. Then the rebuild returns, and
  afterwards exactly one simulator is alive, the new one that \<^verbatim>\<open>sim\<close> names. The engine
  calls it makes are the closing of the old simulator, if there was one, followed by the
  construction of the new one; after the closing none is alive, and at no point of the
  call is more than one alive.
\<close>

theorem rebuild_one_live_simulator:
  assumes "live_handles (engine_log st) = (case sim st of None \<Rightarrow> {} | Some s \<Rightarrow> {sim_id s})"
    and "accepts eng (make_cfg settings)"
  shows "\<exists>st' new.
     make_simulator_from_settings eng settings st = Inr st' \<and>
     sim st' = Some new \<and>
     live_handles (engine_log st') = {sim_id new} \<and>
     card (live_handles (engine_log st')) = 1 \<and>
     engine_log st' = engine_log st
        @ (case sim st of None \<Rightarrow> [] | Some old \<Rightarrow> [Close (sim_id old)])
        @ [Construct (sim_id new)] \<and>
     (\<forall>old. sim st = Some old \<longrightarrow> live_handles (engine_log st @ [Close (sim_id old)]) = {}) \<and>
     (\<forall>calls. prefix (engine_log st) calls \<and> prefix calls (engine_log st') \<longrightarrow>
        card (live_handles calls) \<le> 1)"
proof -
  obtain st' where run: "make_simulator_from_settings eng settings st = Inr st'"
    using make_simulator_accepts [OF assms(2)] by blast
  from make_simulator_Inr(2) [OF run] obtain new where new: "sim st' = Some new"
    and log: "engine_log st' = engine_log st
               @ (case sim st of None \<Rightarrow> [] | Some old \<Rightarrow> [Close (sim_id old)])
               @ [Construct (sim_id new)]"
    by blast
  let ?mid = "engine_log st @ (case sim st of None \<Rightarrow> [] | Some old \<Rightarrow> [Close (sim_id old)])"
  have mid: "live_handles ?mid = {}"
    using assms(1) by (cases "sim st") (simp_all add: live_handles_snoc)
  have closed: "\<forall>old. sim st = Some old \<longrightarrow> live_handles (engine_log st @ [Close (sim_id old)]) = {}"
    using mid by auto
  have live: "live_handles (engine_log st') = {sim_id new}"
    using mid log live_handles_snoc [of ?mid "Construct (sim_id new)"] by simp
  have before: "card (live_handles (engine_log st)) \<le> 1"
    using assms(1) by (cases "sim st") simp_all
  have between: "card (live_handles calls) \<le> 1"
    if p: "prefix (engine_log st) calls" "prefix calls (engine_log st')" for calls
  proof -
    from p(2) have "prefix calls (?mid @ [Construct (sim_id new)])" using log by simp
    then consider "calls = ?mid @ [Construct (sim_id new)]" | "prefix calls ?mid"
      using prefix_snoc [of calls ?mid "Construct (sim_id new)"] by auto
    then show ?thesis
    proof cases
      case 1
      then show ?thesis using live log by simp
    next
      case 2
      show ?thesis
      proof (cases "sim st")
        case None
        then have "calls = engine_log st" using 2 p(1) by (simp add: prefix_order.antisym)
        then show ?thesis using before by simp
      next
        case (Some old)
        then have "prefix calls (engine_log st @ [Close (sim_id old)])" using 2 by simp
        then consider "calls = engine_log st @ [Close (sim_id old)]" | "prefix calls (engine_log st)"
          by (auto simp: prefix_snoc)
        then show ?thesis
        proof cases
          case 1
          then show ?thesis using mid Some by simp
        next
          case 2
          then have "calls = engine_log st" using p(1) by (simp add: prefix_order.antisym)
          then show ?thesis using before by simp
        qed
      qed
    qed
  qed
  show ?thesis
    using run new live log closed between by auto
qed

theorem rebuild_one_live_simulator_witness:
  "\<exists>st1 st2 a b.
     make_simulator_from_settings example_engine (make_default_settings ''/repo/data'')
       example_state = Inr st1 \<and>
     sim st1 = Some a \<and>
     make_simulator_from_settings example_engine (make_default_settings ''/repo/data'') st1
       = Inr st2 \<and>
     sim st2 = Some b \<and>
     engine_log st2 = [Construct (sim_id a), Close (sim_id a), Construct (sim_id b)] \<and>
     live_handles (engine_log st2) = {sim_id b} \<and>
     card (live_handles (engine_log st2)) = 1"
proof -
  let ?S = "make_default_settings ''/repo/data''"
  have h0: "live_handles (engine_log example_state) =
      (case sim example_state of None \<Rightarrow> {} | Some s \<Rightarrow> {sim_id s})"
    by (simp add: example_state_def initial_state_def live_handles_def)
  have acc: "accepts example_engine (make_cfg ?S)"
    by (simp add: example_engine_def)
  from rebuild_one_live_simulator [OF h0 acc] obtain st1 a where
    1: "make_simulator_from_settings example_engine ?S example_state = Inr st1"
    "sim st1 = Some a" "live_handles (engine_log st1) = {sim_id a}"
    "engine_log st1 = [Construct (sim_id a)]"
    by (auto simp: example_state_def initial_state_def)
  have h1: "live_handles (engine_log st1) = (case sim st1 of None \<Rightarrow> {} | Some s \<Rightarrow> {sim_id s})"
    using 1 by simp
  from rebuild_one_live_simulator [OF h1 acc] obtain st2 b where
    2: "make_simulator_from_settings example_engine ?S st1 = Inr st2"
    "sim st2 = Some b" "live_handles (engine_log st2) = {sim_id b}"
    "card (live_handles (engine_log st2)) = 1"
    "engine_log st2 = [Construct (sim_id a), Close (sim_id a), Construct (sim_id b)]"
    using 1 by auto
  show ?thesis using 1 2 by blast
qed

section \<open>Properties of the scene selection\<close>

lemma starts_with_prefix: "starts_with a b \<longleftrightarrow> prefix a b"
  by (induction a b rule: starts_with.induct) simp_all

lemma str_in_sublist: "str_in a b \<longleftrightarrow> sublist a b"
  by (induction b) (simp_all add: starts_with_prefix sublist_Cons_right)

lemma first_valid_find:
  "first_valid handles sel =
     (case find (\<lambda>h. \<not> sublist ''NONE'' h) handles of Some h \<Rightarrow> Some h | None \<Rightarrow> sel)"
  by (induction handles) (simp_all add: str_in_sublist)

text \<open>
  What the call does to the stored selection when there are no widgets, in general.
\<close>

lemma build_widget_ui_no_widgets:
  "build_widget_ui False handles st =
     Inr (st\<lparr>selected_scene :=
            (if handles = [] then Some ''NONE''
             else case find (\<lambda>h. \<not> sublist ''NONE'' h) handles of
                    Some h \<Rightarrow> Some h | None \<Rightarrow> selected_scene st)\<rparr>)"
  by (simp add: build_widget_ui_def first_valid_find)

lemma first_valid_bound: "\<exists>h. first_valid handles (Some sel) = Some h"
  by (induction handles) simp_all

lemma build_widget_ui_Inr:
  assumes "build_widget_ui hw handles st = Inr st'"
  shows "\<exists>sel. st' = st\<lparr>selected_scene := sel\<rparr>"
  using assms
  by (auto simp: build_widget_ui_def Let_def split: if_splits option.splits)

text \<open>
  With widgets the call returns when the value of the dropdown is one of its options:
  from the sentinel as stored selection, that is when some handle is the sentinel or does
  not contain it.
\<close>

lemma first_valid_member:
  assumes "\<exists>h \<in> set handles. h = ''NONE'' \<or> \<not> sublist ''NONE'' h"
  shows "\<exists>h \<in> set handles. first_valid handles (Some ''NONE'') = Some h"
proof (cases "find (\<lambda>h. \<not> sublist ''NONE'' h) handles")
  case None
  then have "\<forall>h \<in> set handles. sublist ''NONE'' h" by (simp add: find_None_iff)
  then have "''NONE'' \<in> set handles" using assms by auto
  then show ?thesis using None by (simp add: first_valid_find)
next
  case (Some h)
  then have "h \<in> set handles" by (auto simp: find_Some_iff)
  then show ?thesis using Some by (simp add: first_valid_find)
qed

lemma build_widget_ui_succeeds:
  assumes "selected_scene st = Some ''NONE''"
    and "hw \<longrightarrow> (\<exists>h \<in> set handles. h = ''NONE'' \<or> \<not> sublist ''NONE'' h)"
  shows "\<exists>st' sel'. build_widget_ui hw handles st = Inr st' \<and> selected_scene st' = Some sel'"
proof (cases hw)
  case False
  then show ?thesis
    using assms(1) first_valid_bound [of handles "''NONE''"]
    by (auto simp: build_widget_ui_def Let_def)
next
  case True
  then have "handles \<noteq> []" using assms(2) by auto
  moreover from True assms(2) first_valid_member [of handles]
  obtain h where "h \<in> set handles" "first_valid handles (Some ''NONE'') = Some h" by blast
  ultimately show ?thesis
    using assms(1) by (simp add: build_widget_ui_def Let_def)
qed

text \<open>With widgets and no handle to offer, the call fails.\<close>

lemma build_widget_ui_no_handles:
  "build_widget_ui True [] st = Inl TraitError"
  by (simp add: build_widget_ui_def)

lemma dropdown_choices_fold:
  "\<exists>sel. foldl (\<lambda>st new. snd (on_scene_ddl_change new st)) st picks = st\<lparr>selected_scene := sel\<rparr> \<and>
     (selected_scene st \<noteq> None \<longrightarrow> sel \<noteq> None)"
proof (induction picks arbitrary: st)
  case Nil
  have "st = st\<lparr>selected_scene := selected_scene st\<rparr>" by simp
  then show ?case by (metis foldl_Nil)
next
  case (Cons p picks)
  from Cons [of "st\<lparr>selected_scene := Some p\<rparr>"] show ?case
    by (auto simp: on_scene_ddl_change_def)
qed

lemma load_selected_scene_Inr:
  assumes "load_selected_scene eng settings st = Inr (settings', st')"
  shows "width settings' = width settings" "height settings' = height settings"
    "files st' = files st" "write_log st' = write_log st" "writable st' = writable st"
    "sim st \<noteq> None \<longrightarrow> sim st' \<noteq> None"
  using assms
  by (auto simp: load_selected_scene_def Let_def
      split: option.splits if_splits sum.splits dest: make_simulator_Inr)

lemma load_selected_scene_succeeds:
  assumes "selected_scene st = Some sel" "\<forall>cfg. accepts eng cfg"
  shows "\<exists>settings' st'. load_selected_scene eng settings st = Inr (settings', st')"
  using assms make_simulator_accepts [of eng "settings\<lparr>scene := sel\<rparr>" st]
  by (auto simp: load_selected_scene_def Let_def)

text \<open>
  Claim C3 as stated fails: the selection of the code is not the specification's. A
  handle that contains \<^verbatim>\<open>NONE\<close> without being the sentinel is passed over.
\<close>

theorem scene_selection_counterexample:
  "map_sum id selected_scene
     (build_widget_ui False [''NONE_stage'', ''apt_0'']
        (example_state\<lparr>selected_scene := Some ''NONE''\<rparr>))
     = Inr (Some ''apt_0'') \<and>
   spec_choose_scene [''NONE_stage'', ''apt_0''] = ''NONE_stage''"
  by (simp add: build_widget_ui_def spec_choose_scene_def)

text \<open>
  Claim C3, amended. Without widgets the call returns, and the selection it stores depends
  on the handle list as follows: for the empty list it is the sentinel \<^verbatim>\<open>NONE\<close>; otherwise
  it is the first handle that does not contain \<^verbatim>\<open>NONE\<close> as a substring; and when every
  handle contains it and the stored selection was the sentinel (as the rebuild leaves
  it), it is the sentinel.
\<close>

theorem scene_selection_no_widgets:
  "\<exists>st'. build_widget_ui False handles st = Inr st' \<and>
     (handles = [] \<longrightarrow> selected_scene st' = Some ''NONE'') \<and>
     (\<forall>h. find (\<lambda>h. \<not> sublist ''NONE'' h) handles = Some h \<longrightarrow> selected_scene st' = Some h) \<and>
     (find (\<lambda>h. \<not> sublist ''NONE'' h) handles = None \<and> selected_scene st = Some ''NONE'' \<longrightarrow>
        selected_scene st' = Some ''NONE'')"
  by (auto simp: build_widget_ui_no_widgets)

theorem scene_selection_no_widgets_witness:
  "(\<exists>st'. build_widget_ui False [''NONE'', ''NONE_stage'', ''apt_0'', ''apt_1'']
             (example_state\<lparr>selected_scene := Some ''NONE''\<rparr>) = Inr st' \<and>
          selected_scene st' = Some ''apt_0'') \<and>
   (\<exists>st'. build_widget_ui False [''NONE'', ''NONE_stage'']
             (example_state\<lparr>selected_scene := Some ''NONE''\<rparr>) = Inr st' \<and>
          selected_scene st' = Some ''NONE'') \<and>
   (\<exists>st'. build_widget_ui False [] (example_state\<lparr>selected_scene := Some ''apt_1''\<rparr>) = Inr st' \<and>
          selected_scene st' = Some ''NONE'')"
proof -
  have f1: "find (\<lambda>h. \<not> sublist ''NONE'' h) [''NONE'', ''NONE_stage'', ''apt_0'', ''apt_1'']
      = Some ''apt_0''"
    by (simp add: str_in_sublist [symmetric])
  have f2: "find (\<lambda>h. \<not> sublist ''NONE'' h) [''NONE'', ''NONE_stage''] = None"
    by (simp add: str_in_sublist [symmetric])
  let ?st = "example_state\<lparr>selected_scene := Some ''NONE''\<rparr>"
  have sel: "selected_scene ?st = Some ''NONE''" by simp
  from scene_selection_no_widgets [of "[''NONE'', ''NONE_stage'', ''apt_0'', ''apt_1'']" ?st] f1
  have a: "\<exists>st'. build_widget_ui False [''NONE'', ''NONE_stage'', ''apt_0'', ''apt_1''] ?st = Inr st' \<and>
          selected_scene st' = Some ''apt_0''"
    by blast
  from scene_selection_no_widgets [of "[''NONE'', ''NONE_stage'']" ?st] f2 sel
  have b: "\<exists>st'. build_widget_ui False [''NONE'', ''NONE_stage''] ?st = Inr st' \<and>
          selected_scene st' = Some ''NONE''"
    by blast
  from scene_selection_no_widgets [of "[]" "example_state\<lparr>selected_scene := Some ''apt_1''\<rparr>"]
  have c: "\<exists>st'. build_widget_ui False [] (example_state\<lparr>selected_scene := Some ''apt_1''\<rparr>) = Inr st' \<and>
          selected_scene st' = Some ''NONE''"
    by blast
  show ?thesis using a b c by blast
qed

text \<open>
  Claim C10. A rebuild that returns leaves the stored selection at the sentinel \<^verbatim>\<open>NONE\<close>.
  So when the selection differs from the scene of the default settings and the simulator
  is rebuilt before the loop, the settings and the new simulator have the selected scene,
  and the stored selection is the sentinel again, which is not that scene.
\<close>

theorem rebuild_resets_selection:
  "(make_simulator_from_settings eng settings st = Inr st' \<longrightarrow>
      selected_scene st' = Some ''NONE'') \<and>
   (selected_scene st = Some sel \<and> scene (make_default_settings dp) \<noteq> sel \<and>
    load_selected_scene eng (make_default_settings dp) st = Inr (settings', st'') \<longrightarrow>
      scene settings' = sel \<and>
      (\<exists>new. sim st'' = Some new \<and> scene_id (sim_cfg (config new)) = sel) \<and>
      selected_scene st'' = Some ''NONE'' \<and>
      selected_scene st'' \<noteq> Some (scene settings'))"
proof -
  have first: "selected_scene st' = Some ''NONE''"
    if "make_simulator_from_settings eng settings st = Inr st'"
    using make_simulator_Inr(3) [OF that] .
  have second: "scene settings' = sel \<and>
      (\<exists>new. sim st'' = Some new \<and> scene_id (sim_cfg (config new)) = sel) \<and>
      selected_scene st'' = Some ''NONE'' \<and>
      selected_scene st'' \<noteq> Some (scene settings')"
    if sel: "selected_scene st = Some sel" and ne: "scene (make_default_settings dp) \<noteq> sel"
      and load: "load_selected_scene eng (make_default_settings dp) st = Inr (settings', st'')"
  proof -
    let ?S = "(make_default_settings dp)\<lparr>scene := sel\<rparr>"
    from load sel ne have s': "settings' = ?S"
      and run: "make_simulator_from_settings eng ?S st = Inr st''"
      by (auto simp: load_selected_scene_def Let_def split: sum.splits)
    have "sel \<noteq> ''NONE''" using ne by (simp add: make_default_settings_def)
    moreover have "scene_id (sim_cfg (make_cfg ?S)) = sel" by (simp add: make_cfg_def Let_def)
    ultimately show ?thesis
      using make_simulator_Inr(2,3) [OF run] s' by auto
  qed
  show ?thesis using first second by blast
qed

theorem rebuild_resets_selection_witness:
  "\<exists>settings' st'' new.
     load_selected_scene example_engine (make_default_settings ''/repo/data'')
       (example_state\<lparr>selected_scene := Some ''apt_0''\<rparr>) = Inr (settings', st'') \<and>
     scene settings' = ''apt_0'' \<and>
     sim st'' = Some new \<and> scene_id (sim_cfg (config new)) = ''apt_0'' \<and>
     selected_scene st'' = Some ''NONE'' \<and>
     selected_scene st'' \<noteq> Some (scene settings')"
proof -
  let ?S = "make_default_settings ''/repo/data''"
  let ?st = "example_state\<lparr>selected_scene := Some ''apt_0''\<rparr>"
  obtain settings' st'' where ld: "load_selected_scene example_engine ?S ?st = Inr (settings', st'')"
    using load_selected_scene_succeeds [of ?st "''apt_0''" example_engine ?S]
    by (auto simp: example_engine_def)
  have ne: "scene ?S \<noteq> ''apt_0''" by (simp add: make_default_settings_def)
  have sel: "selected_scene ?st = Some ''apt_0''" by simp
  show ?thesis
    using rebuild_resets_selection [of example_engine ?S ?st _ "''apt_0''" "''/repo/data''" settings' st'']
      ld ne sel by blast
qed

section \<open>Properties of the trajectory loop\<close>

lemma loop_body_sim:
  assumes "loop_body E r = Inr r'"
  shows "\<exists>s s'. sim r = Some s \<and> sim r' = Some s' \<and>
           s' = s\<lparr>agent_node := pose_update (count r) (agent_node s),
                  world_time := advance (engine_of E) (world_time s) (1 / 30)\<rparr>"
  using assms
  by (auto simp: loop_body_def Let_def step_physics_def
      split: option.splits if_splits sum.splits dest!: save_sample_Inr)

lemma loop_body_frame:
  assumes "loop_body E r = Inr r'"
  shows "start_time r' = start_time r" "sim_settings r' = sim_settings r"
    "writable r' = writable r" "engine_log r' = engine_log r"
    "selected_scene r' = selected_scene r"
  using assms
  by (auto simp: loop_body_def Let_def
      split: option.splits if_splits sum.splits dest!: save_sample_Inr)

lemma loop_body_count:
  assumes "loop_body E r = Inr r'"
  shows "count r' = (if make_video E \<and> display E then count r + 1 else count r)"
  using assms
  by (auto simp: loop_body_def Let_def
      split: option.splits if_splits sum.splits dest!: save_sample_Inr)

lemma loop_body_record:
  assumes "loop_body E r = Inr r'" "sim r' = Some s'"
  shows "observations r' =
           (if make_video E then observations r @ [get_sensor_observations (engine_of E) s']
            else observations r)"
    and "translations_list r' =
           (if make_video E then translations_list r @ [translation (agent_node s')]
            else translations_list r)"
    and "rotations r' =
           (if make_video E then rotations r @ [rotation (agent_node s')] else rotations r)"
  using assms
  by (auto simp: loop_body_def Let_def
      split: option.splits if_splits sum.splits dest!: save_sample_Inr)

lemma loop_body_write_log:
  assumes "loop_body E r = Inr r'"
  shows "write_log r' = write_log r @
           (if make_video E \<and> display E
            then [(dir_path E @ ''/output'') @ ''/rgb_image_'' @ str_int (count r) @ ''.png'',
                  (dir_path E @ ''/output'') @ ''/semantic_image_'' @ str_int (count r) @ ''.png'',
                  (dir_path E @ ''/output'') @ ''/depth_image_'' @ str_int (count r) @ ''.png'']
            else [])"
  using assms
  by (auto simp: loop_body_def Let_def
      split: option.splits if_splits sum.splits dest!: save_sample_Inr)

lemma loop_body_succeeds:
  assumes "sim r = Some s" "make_video E \<and> display E \<longrightarrow> (\<forall>p. writable r p)"
  shows "\<exists>r'. loop_body E r = Inr r'"
  using assms
  by (auto simp: loop_body_def Let_def save_sample_def write_file_def)

lemma start_run_simps:
  "sim (start_run settings s st) = Some (s\<lparr>agent_node := (agent_node s)\<lparr>translation := (- 2, 0, 0)\<rparr>\<rparr>)"
  "observations (start_run settings s st) = []"
  "translations_list (start_run settings s st) = []"
  "rotations (start_run settings s st) = []"
  "count (start_run settings s st) = 1"
  "start_time (start_run settings s st) = world_time s"
  "sim_settings (start_run settings s st) = settings"
  "writable (start_run settings s st) = writable st"
  "write_log (start_run settings s st) = write_log st"
  "files (start_run settings s st) = files st"
  "engine_log (start_run settings s st) = engine_log st"
  "selected_scene (start_run settings s st) = selected_scene st"
  by (simp_all add: start_run_def state.defs run.defs)

text \<open>
  Claim C1. An iteration of the trajectory loop changes the pose of the agent by the pose
  update for the current value of the step counter, and that update depends on the
  counter only. Below 40 (so at 39) the node is rotated by \<open>-\<pi>/2/20\<close> about the Y axis and
  keeps its translation; from 40 and below 60 it gets the same rotation and its
  translation grows by \<open>(0.3, 0, 0)\<close>; from 60 and below 80 it gets the same rotation and
  its translation grows by \<open>(0, 0, 0.3)\<close>; from 80 on its translation grows by
  \<open>(-0.1, 0, -0.1)\<close> and its rotation stays as it was.
\<close>

theorem pose_update_by_count:
  "(loop_body E r = Inr r' \<longrightarrow>
      (\<exists>s s'. sim r = Some s \<and> sim r' = Some s' \<and>
         agent_node s' = pose_update (count r) (agent_node s))) \<and>
   (c < 40 \<longrightarrow>
      translation (pose_update c n) = translation n \<and>
      rotation (pose_update c n) = (- (pi / 2) / 20, (0, 1, 0)) # rotation n) \<and>
   (40 \<le> c \<and> c < 60 \<longrightarrow>
      translation (pose_update c n) = vadd (translation n) (3 / 10, 0, 0) \<and>
      rotation (pose_update c n) = (- (pi / 2) / 20, (0, 1, 0)) # rotation n) \<and>
   (60 \<le> c \<and> c < 80 \<longrightarrow>
      translation (pose_update c n) = vadd (translation n) (0, 0, 3 / 10) \<and>
      rotation (pose_update c n) = (- (pi / 2) / 20, (0, 1, 0)) # rotation n) \<and>
   (80 \<le> c \<longrightarrow>
      translation (pose_update c n) = vadd (translation n) (- (1 / 10), 0, - (1 / 10)) \<and>
      rotation (pose_update c n) = rotation n)"
proof -
  have body: "\<exists>s s'. sim r = Some s \<and> sim r' = Some s' \<and>
         agent_node s' = pose_update (count r) (agent_node s)"
    if "loop_body E r = Inr r'"
    using loop_body_sim [OF that] by auto
  show ?thesis
    using body by (simp add: pose_update_def rotate_node_def translate_by_def pi_half_def)
qed

theorem pose_update_by_count_witness:
  "(\<exists>r' s'. loop_body (example_env True True)
        ((start_run (make_default_settings ''/repo/data'') example_simulator example_state)
           \<lparr>count := 40\<rparr>) = Inr r' \<and>
      sim r' = Some s' \<and>
      translation (agent_node s') = (- 17 / 10, 0, 0) \<and>
      rotation (agent_node s') = [(- (pi / 2) / 20, (0, 1, 0))]) \<and>
   translation (pose_update 39 \<lparr>translation = (- 2, 0, 0), rotation = []\<rparr>) = (- 2, 0, 0) \<and>
   rotation (pose_update 39 \<lparr>translation = (- 2, 0, 0), rotation = []\<rparr>)
     = [(- (pi / 2) / 20, (0, 1, 0))] \<and>
   translation (pose_update 40 \<lparr>translation = (- 2, 0, 0), rotation = []\<rparr>) = (- 17 / 10, 0, 0) \<and>
   rotation (pose_update 40 \<lparr>translation = (- 2, 0, 0), rotation = []\<rparr>)
     = [(- (pi / 2) / 20, (0, 1, 0))] \<and>
   translation (pose_update 60 \<lparr>translation = (- 2, 0, 0), rotation = []\<rparr>) = (- 2, 0, 3 / 10) \<and>
   rotation (pose_update 60 \<lparr>translation = (- 2, 0, 0), rotation = []\<rparr>)
     = [(- (pi / 2) / 20, (0, 1, 0))] \<and>
   translation (pose_update 80 \<lparr>translation = (- 2, 0, 0), rotation = []\<rparr>)
     = (- 21 / 10, 0, - 1 / 10) \<and>
   rotation (pose_update 80 \<lparr>translation = (- 2, 0, 0), rotation = []\<rparr>) = []"
proof -
  let ?E = "example_env True True"
  let ?r = "(start_run (make_default_settings ''/repo/data'') example_simulator example_state)
              \<lparr>count := 40\<rparr>"
  let ?n = "\<lparr>translation = (- 2, 0, 0), rotation = []\<rparr>"
  have "\<exists>r'. loop_body ?E ?r = Inr r'"
    by (rule loop_body_succeeds [of _ "example_simulator\<lparr>agent_node := (agent_node example_simulator)\<lparr>translation := (- 2, 0, 0)\<rparr>\<rparr>"])
      (simp_all add: start_run_simps example_state_def initial_state_def)
  then obtain r' where b: "loop_body ?E ?r = Inr r'" by blast
  from pose_update_by_count [of ?E ?r r' 40 "?n", THEN conjunct1, THEN mp, OF b]
  obtain s' where "sim r' = Some s'"
    "agent_node s' = pose_update 40 ?n"
    by (auto simp: start_run_simps example_simulator_def)
  then have first: "\<exists>r' s'. loop_body ?E ?r = Inr r' \<and> sim r' = Some s' \<and>
      translation (agent_node s') = (- 17 / 10, 0, 0) \<and>
      rotation (agent_node s') = [(- (pi / 2) / 20, (0, 1, 0))]"
    using b pose_update_by_count [of ?E ?r r' 40 "?n"] by (auto simp: vadd_def)
  show ?thesis
    using first pose_update_by_count [of ?E ?r r' 39 ?n]
      pose_update_by_count [of ?E ?r r' 40 ?n]
      pose_update_by_count [of ?E ?r r' 60 ?n]
      pose_update_by_count [of ?E ?r r' 80 ?n]
    by (simp add: vadd_def)
qed

text \<open>
  Partial correctness of the loop: what holds of a state in which the loop condition
  fails, and is carried backwards over an iteration, holds of the result.
\<close>

lemma trajectory_loop_induct:
  assumes run: "trajectory_loop E r = Some (Inr r')"
    and base: "\<And>r s. sim r = Some s \<Longrightarrow> \<not> world_time s < start_time r + 4 \<Longrightarrow> P r r"
    and step: "\<And>r s r1 r'. sim r = Some s \<Longrightarrow> world_time s < start_time r + 4 \<Longrightarrow>
                 loop_body E r = Inr r1 \<Longrightarrow> P r1 r' \<Longrightarrow> P r r'"
  shows "P r r'"
proof -
  have "E0 = E \<longrightarrow> (\<forall>r'. y = Inr r' \<longrightarrow> P r r')" if "trajectory_loop E0 r = Some y" for E0 y
  proof (rule trajectory_loop.raw_induct
      [where P = "\<lambda>E0 r y. E0 = E \<longrightarrow> (\<forall>r'. y = Inr r' \<longrightarrow> P r r')", OF _ that])
    fix loop :: "env \<Rightarrow> run \<Rightarrow> (error + run) option" and E1 r y
    assume IH: "\<And>E0 r y. loop E0 r = Some y \<Longrightarrow> E0 = E \<longrightarrow> (\<forall>r'. y = Inr r' \<longrightarrow> P r r')"
      and unfold: "(case sim r of
                None \<Rightarrow> Some (Inl AttributeError)
              | Some s \<Rightarrow>
                  if world_time s < start_time r + 4
                  then case loop_body E1 r of Inl e \<Rightarrow> Some (Inl e) | Inr r' \<Rightarrow> loop E1 r'
                  else Some (Inr r)) = Some y"
    show "E1 = E \<longrightarrow> (\<forall>r'. y = Inr r' \<longrightarrow> P r r')"
    proof (intro allI impI)
      fix r' assume E1: "E1 = E" and y: "y = Inr r'"
      from unfold y obtain s where s: "sim r = Some s"
        by (auto split: option.splits)
      show "P r r'"
      proof (cases "world_time s < start_time r + 4")
        case True
        with unfold s y obtain r1 where b: "loop_body E1 r = Inr r1"
          and l: "loop E1 r1 = Some (Inr r')"
          by (auto split: sum.splits)
        from IH [OF l] E1 have "P r1 r'" by blast
        then show ?thesis using step [OF s True] b E1 by blast
      next
        case False
        with unfold s y have "r' = r" by simp
        then show ?thesis using base [OF s False] by simp
      qed
    qed
  qed
  then show ?thesis using run by blast
qed

lemma trajectory_loop_steps:
  assumes "trajectory_loop E r = Some (Inr r')"
  shows "\<exists>n. loop_steps E n r = Inr r'"
proof (rule trajectory_loop_induct [OF assms])
  show "\<exists>n. loop_steps E n r = Inr r" for r
    by (rule exI [of _ 0]) simp
next
  fix r r1 r'
  assume "loop_body E r = Inr r1" and "\<exists>n. loop_steps E n r1 = Inr r'"
  then obtain n where "loop_steps E (Suc n) r = Inr r'" by auto
  then show "\<exists>n. loop_steps E n r = Inr r'" by blast
qed

lemma trajectory_loop_stop:
  assumes "trajectory_loop E r = Some (Inr r')"
  shows "\<exists>s'. sim r' = Some s' \<and> \<not> world_time s' < start_time r' + 4"
  by (rule trajectory_loop_induct [OF assms]) auto

text \<open>
  The loop ends when every physics step advances the world time by at least a fixed
  positive amount and no write fails.
\<close>

lemma trajectory_loop_terminates:
  assumes d: "0 < \<delta>" and adv: "\<And>t. t + \<delta> \<le> advance (engine_of E) t (1 / 30)"
    and s: "sim r = Some s"
    and w: "make_video E \<and> display E \<longrightarrow> (\<forall>p. writable r p)"
  shows "\<exists>r'. trajectory_loop E r = Some (Inr r')"
  using s w
proof (induction "nat \<lceil>(start_time r + 4 - world_time s) / \<delta>\<rceil>" arbitrary: r s rule: less_induct)
  case less
  show ?case
  proof (cases "world_time s < start_time r + 4")
    case False
    then show ?thesis using less.prems(1) by (subst trajectory_loop.simps) simp
  next
    case True
    obtain r1 where b: "loop_body E r = Inr r1"
      using loop_body_succeeds [OF less.prems] by blast
    from loop_body_sim [OF b] less.prems(1) obtain s1 where s1: "sim r1 = Some s1"
      and t1: "world_time s1 = advance (engine_of E) (world_time s) (1 / 30)"
      by auto
    have st: "start_time r1 = start_time r" and wr: "writable r1 = writable r"
      using loop_body_frame [OF b] by simp_all
    let ?x = "(start_time r + 4 - world_time s) / \<delta>"
    let ?y = "(start_time r1 + 4 - world_time s1) / \<delta>"
    have "world_time s + \<delta> \<le> world_time s1" using adv t1 by simp
    then have "start_time r1 + 4 - world_time s1 \<le> (start_time r + 4 - world_time s) - \<delta>"
      using st by simp
    then have "?y \<le> ((start_time r + 4 - world_time s) - \<delta>) / \<delta>"
      using d by (simp add: divide_right_mono)
    also have "\<dots> = ?x - 1" using d by (simp add: diff_divide_distrib)
    finally have "\<lceil>?y\<rceil> \<le> \<lceil>?x\<rceil> - 1" by (metis ceiling_mono ceiling_diff_one)
    moreover have "0 < ?x" using True d by simp
    then have "0 < \<lceil>?x\<rceil>" by simp
    ultimately have "nat \<lceil>?y\<rceil> < nat \<lceil>?x\<rceil>" by linarith
    from less.hyps [OF this s1] wr less.prems(2)
    obtain r' where "trajectory_loop E r1 = Some (Inr r')" by auto
    then show ?thesis
      using less.prems(1) True b by (subst trajectory_loop.simps) simp
  qed
qed

lemma loop_steps_lengths:
  assumes "loop_steps E n r = Inr r'"
  shows "length (observations r') = length (observations r) + (if make_video E then n else 0) \<and>
         length (translations_list r') = length (translations_list r) + (if make_video E then n else 0) \<and>
         length (rotations r') = length (rotations r) + (if make_video E then n else 0)"
  using assms
proof (induction n arbitrary: r)
  case 0
  then show ?case by simp
next
  case (Suc n)
  then obtain r1 where b: "loop_body E r = Inr r1" and rest: "loop_steps E n r1 = Inr r'"
    by (auto split: sum.splits)
  from loop_body_sim [OF b] obtain s1 where s1: "sim r1 = Some s1" by blast
  show ?case
    using Suc.IH [OF rest] loop_body_record [OF b s1] by simp
qed

text \<open>
  Claim C2. When the trajectory loop has finished, the three sequences have the same
  length; the loop has then run some number \<open>n\<close> of iterations, and with frame capture
  enabled that length is \<open>n\<close>. The loop does finish when the engine advances the world time
  by at least a fixed positive amount at every step and no sample fails to be written.
\<close>

theorem trajectory_lengths_equal:
  "(\<forall>r'. trajectory_loop E (start_run settings s st) = Some (Inr r') \<longrightarrow>
      length (observations r') = length (translations_list r') \<and>
      length (translations_list r') = length (rotations r') \<and>
      (\<exists>n. loop_steps E n (start_run settings s st) = Inr r' \<and>
           length (observations r') = (if make_video E then n else 0))) \<and>
   (0 < \<delta> \<and> (\<forall>t. t + \<delta> \<le> advance (engine_of E) t (1 / 30)) \<and>
    (make_video E \<and> display E \<longrightarrow> (\<forall>p. writable st p)) \<longrightarrow>
      (\<exists>r'. trajectory_loop E (start_run settings s st) = Some (Inr r')))"
proof -
  let ?r0 = "start_run settings s st"
  have part: "length (observations r') = length (translations_list r') \<and>
      length (translations_list r') = length (rotations r') \<and>
      (\<exists>n. loop_steps E n ?r0 = Inr r' \<and>
           length (observations r') = (if make_video E then n else 0))"
    if "trajectory_loop E ?r0 = Some (Inr r')" for r'
  proof -
    from trajectory_loop_steps [OF that] obtain n where n: "loop_steps E n ?r0 = Inr r'" by blast
    from loop_steps_lengths [OF n] show ?thesis using n by (auto simp: start_run_simps)
  qed
  have total: "\<exists>r'. trajectory_loop E ?r0 = Some (Inr r')"
    if "0 < \<delta>" "\<forall>t. t + \<delta> \<le> advance (engine_of E) t (1 / 30)"
      "make_video E \<and> display E \<longrightarrow> (\<forall>p. writable st p)"
    using trajectory_loop_terminates [of \<delta> E ?r0] that by (simp add: start_run_simps)
  show ?thesis using part total by blast
qed

theorem trajectory_lengths_equal_witness:
  "\<exists>r' n. trajectory_loop (example_env True True)
          (start_run (make_default_settings ''/repo/data'') example_simulator example_state)
        = Some (Inr r') \<and>
      loop_steps (example_env True True) n
          (start_run (make_default_settings ''/repo/data'') example_simulator example_state)
        = Inr r' \<and>
      length (observations r') = n \<and>
      length (translations_list r') = n \<and>
      length (rotations r') = n"
proof -
  let ?E = "example_env True True"
  let ?r0 = "start_run (make_default_settings ''/repo/data'') example_simulator example_state"
  have adv: "\<forall>t. t + 2 \<le> advance (engine_of ?E) t (1 / 30)"
    by (simp add: example_env_simps example_engine_simps)
  have w: "\<forall>p. writable example_state p"
    by (simp add: example_state_def initial_state_def)
  note main = trajectory_lengths_equal [of ?E "make_default_settings ''/repo/data''" example_simulator
      example_state 2]
  from main adv w obtain r' where run: "trajectory_loop ?E ?r0 = Some (Inr r')"
    by auto
  with main show ?thesis by (auto simp: example_env_simps)
qed

lemma pose_update_turning: "c < 40 \<Longrightarrow> pose_update c n = rotate_node (- pi_half / 20) (0, 1, 0) n"
  by (simp add: pose_update_def)

lemma loop_steps_no_display:
  assumes "loop_steps E n r = Inr r'" "\<not> display E" "count r = 1" "sim r = Some s"
    "\<forall>v \<in> set (translations_list r). v = translation (agent_node s)"
  shows "count r' = 1 \<and>
         (\<exists>s'. sim r' = Some s' \<and> translation (agent_node s') = translation (agent_node s) \<and>
            rotation (agent_node s') = replicate n (- (pi / 2) / 20, (0, 1, 0)) @ rotation (agent_node s)) \<and>
         (\<forall>v \<in> set (translations_list r'). v = translation (agent_node s))"
  using assms
proof (induction n arbitrary: r s)
  case 0
  then show ?case by simp
next
  case (Suc n)
  then obtain r1 where b: "loop_body E r = Inr r1" and rest: "loop_steps E n r1 = Inr r'"
    by (auto split: sum.splits)
  from loop_body_sim [OF b] Suc.prems(3,4) obtain s1 where s1: "sim r1 = Some s1"
    and node: "agent_node s1 = rotate_node (- pi_half / 20) (0, 1, 0) (agent_node s)"
    by (auto simp: pose_update_turning)
  have c1: "count r1 = 1" using loop_body_count [OF b] Suc.prems(2,3) by simp
  have tr: "translation (agent_node s1) = translation (agent_node s)"
    and ro: "rotation (agent_node s1) = (- (pi / 2) / 20, (0, 1, 0)) # rotation (agent_node s)"
    using node by (simp_all add: rotate_node_def pi_half_def)
  have l1: "\<forall>v \<in> set (translations_list r1). v = translation (agent_node s1)"
    using loop_body_record(2) [OF b s1] Suc.prems(5) tr by (auto split: if_splits)
  from Suc.IH [OF rest Suc.prems(2) c1 s1 l1] show ?case
    using tr ro by (auto simp: replicate_app_Cons_same)
qed

text \<open>
  Claim C9. The counter starts at 1, and an iteration adds one to it exactly when both
  frame capture and display are enabled. So with display disabled, after any number \<open>n\<close>
  of iterations the counter is 1, the agent is where it was put at the start, it has been
  rotated \<open>n\<close> times by the turning angle and nothing else, and every recorded translation
  is the start position; the same holds when the loop has finished, which it does when the
  engine advances the world time by at least a fixed positive amount at every step.
\<close>

theorem count_stays_one_without_display:
  "count (start_run settings s st) = 1 \<and>
   (\<forall>r r'. loop_body E r = Inr r' \<longrightarrow>
      count r' = (if make_video E \<and> display E then count r + 1 else count r)) \<and>
   (\<not> display E \<longrightarrow>
      (\<forall>n r'. loop_steps E n (start_run settings s st) = Inr r' \<longrightarrow>
         count r' = 1 \<and>
         (\<exists>s'. sim r' = Some s' \<and> translation (agent_node s') = (- 2, 0, 0) \<and>
            rotation (agent_node s') =
              replicate n (- (pi / 2) / 20, (0, 1, 0)) @ rotation (agent_node s)) \<and>
         (\<forall>v \<in> set (translations_list r'). v = (- 2, 0, 0))) \<and>
      (\<forall>r'. trajectory_loop E (start_run settings s st) = Some (Inr r') \<longrightarrow>
         count r' = 1 \<and>
         (\<exists>s'. sim r' = Some s' \<and> translation (agent_node s') = (- 2, 0, 0)) \<and>
         (\<forall>v \<in> set (translations_list r'). v = (- 2, 0, 0))) \<and>
      (0 < \<delta> \<and> (\<forall>t. t + \<delta> \<le> advance (engine_of E) t (1 / 30)) \<longrightarrow>
         (\<exists>r'. trajectory_loop E (start_run settings s st) = Some (Inr r'))))"
proof -
  let ?r0 = "start_run settings s st"
  let ?s0 = "s\<lparr>agent_node := (agent_node s)\<lparr>translation := (- 2, 0, 0)\<rparr>\<rparr>"
  have steps: "count r' = 1 \<and>
         (\<exists>s'. sim r' = Some s' \<and> translation (agent_node s') = (- 2, 0, 0) \<and>
            rotation (agent_node s') =
              replicate n (- (pi / 2) / 20, (0, 1, 0)) @ rotation (agent_node s)) \<and>
         (\<forall>v \<in> set (translations_list r'). v = (- 2, 0, 0))"
    if "\<not> display E" "loop_steps E n ?r0 = Inr r'" for n r'
    using loop_steps_no_display [OF that(2) that(1), of ?s0] by (simp add: start_run_simps)
  have final: "count r' = 1 \<and>
         (\<exists>s'. sim r' = Some s' \<and> translation (agent_node s') = (- 2, 0, 0)) \<and>
         (\<forall>v \<in> set (translations_list r'). v = (- 2, 0, 0))"
    if "\<not> display E" "trajectory_loop E ?r0 = Some (Inr r')" for r'
    using trajectory_loop_steps [OF that(2)] steps [OF that(1)] by blast
  have total: "\<exists>r'. trajectory_loop E ?r0 = Some (Inr r')"
    if "\<not> display E" "0 < \<delta>" "\<forall>t. t + \<delta> \<le> advance (engine_of E) t (1 / 30)"
    using trajectory_loop_terminates [of \<delta> E ?r0] that by (simp add: start_run_simps)
  show ?thesis
    using steps final total loop_body_count by (simp add: start_run_simps)
qed

theorem count_stays_one_without_display_witness:
  "\<exists>r' s'. trajectory_loop (example_env False True)
          (start_run (make_default_settings ''/repo/data'') example_simulator example_state)
        = Some (Inr r') \<and>
      count r' = 1 \<and> sim r' = Some s' \<and> translation (agent_node s') = (- 2, 0, 0)"
proof -
  let ?E = "example_env False True"
  let ?r0 = "start_run (make_default_settings ''/repo/data'') example_simulator example_state"
  have adv: "\<forall>t. t + 2 \<le> advance (engine_of ?E) t (1 / 30)"
    by (simp add: example_env_simps example_engine_simps)
  have nd: "\<not> display ?E" by (simp add: example_env_simps)
  note main = count_stays_one_without_display [of "make_default_settings ''/repo/data''"
      example_simulator example_state ?E 2]
  from main adv nd obtain r' where run: "trajectory_loop ?E ?r0 = Some (Inr r')"
    by auto
  with main nd show ?thesis by blast
qed

section \<open>Properties of the whole run\<close>

text \<open>
  No sample is written to the path of the snapshot.
\<close>

lemma loop_body_no_snapshot_write:
  assumes "loop_body E r = Inr r'" "output_filename (dir_path E) \<notin> set (write_log r)"
  shows "output_filename (dir_path E) \<notin> set (write_log r')"
  using loop_body_write_log [OF assms(1)] assms(2)
  by (auto simp: output_filename_def split: if_splits)

lemma loop_steps_write_log:
  assumes "loop_steps E n r = Inr r'" "output_filename (dir_path E) \<notin> set (write_log r)"
  shows "output_filename (dir_path E) \<notin> set (write_log r')"
  using assms
proof (induction n arbitrary: r)
  case 0
  then show ?case by simp
next
  case (Suc n)
  then obtain r1 where b: "loop_body E r = Inr r1" and rest: "loop_steps E n r1 = Inr r'"
    by (auto split: sum.splits)
  from Suc.IH [OF rest loop_body_no_snapshot_write [OF b Suc.prems(2)]] show ?case .
qed

lemma loop_steps_frame:
  assumes "loop_steps E n r = Inr r'"
  shows "sim_settings r' = sim_settings r \<and> writable r' = writable r \<and> start_time r' = start_time r \<and>
         (sim r \<noteq> None \<longrightarrow> sim r' \<noteq> None)"
  using assms
proof (induction n arbitrary: r)
  case 0
  then show ?case by simp
next
  case (Suc n)
  then obtain r1 where b: "loop_body E r = Inr r1" and rest: "loop_steps E n r1 = Inr r'"
    by (auto split: sum.splits)
  from loop_body_sim [OF b] have "sim r1 \<noteq> None" by auto
  then show ?case using Suc.IH [OF rest] loop_body_frame [OF b] by simp
qed

lemma save_to_pickle_Inr:
  assumes "save_to_pickle E r = Inr r'"
  shows "\<exists>s. sim r = Some s \<and>
           r' = r\<lparr>files := (files r)(output_filename (dir_path E) \<mapsto>
                     Pickle (data_to_save r (camera_intrinsics (sim_settings r)
                               (hfov (engine_of E) (config s))))),
                  write_log := write_log r @ [output_filename (dir_path E)]\<rparr>"
  using assms
  by (auto simp: save_to_pickle_def Let_def split: option.splits dest!: write_file_Inr)

lemma script_Inr:
  assumes "script E st0 = Some (Inr r)"
  shows "\<exists>settings s st rL.
           trajectory_loop E (start_run settings s st) = Some (Inr rL) \<and>
           save_to_pickle E rL = Inr r \<and>
           width settings = 1280 \<and> height settings = 720 \<and>
           write_log st = write_log st0 \<and> writable st = writable st0"
proof -
  let ?S = "make_default_settings (path_join (dir_path E) ''data'')"
  from assms obtain st1 s1 st2 settings' st4 s4 rL where
    mk: "make_simulator_from_settings (engine_of E) ?S st0 = Inr st1"
    and s1: "sim st1 = Some s1"
    and ui: "build_widget_ui (HAS_WIDGETS E) (get_scene_handles (engine_of E) (config s1)) st1 = Inr st2"
    and ld: "load_selected_scene (engine_of E) ?S
               (if HAS_WIDGETS E
                then foldl (\<lambda>st new. snd (on_scene_ddl_change new st)) st2 (dropdown_choices E)
                else st2) = Inr (settings', st4)"
    and s4: "sim st4 = Some s4"
    and lp: "trajectory_loop E (start_run settings' s4 st4) = Some (Inr rL)"
    and pk: "save_to_pickle E rL = Inr r"
    by (auto simp: script_def Let_def split: sum.splits option.splits prod.splits)
  let ?st3 = "if HAS_WIDGETS E
                then foldl (\<lambda>st new. snd (on_scene_ddl_change new st)) st2 (dropdown_choices E)
                else st2"
  from build_widget_ui_Inr [OF ui] obtain sel where st2: "st2 = st1\<lparr>selected_scene := sel\<rparr>"
    by blast
  from dropdown_choices_fold [of st2 "dropdown_choices E"] obtain sel'
    where "?st3 = st2\<lparr>selected_scene := sel'\<rparr> \<or> ?st3 = st2" by metis
  then have st3: "write_log ?st3 = write_log st1" "writable ?st3 = writable st1"
    using st2 by auto
  have "width settings' = 1280" "height settings' = 720"
    using load_selected_scene_Inr(1,2) [OF ld] by (simp_all add: make_default_settings_def)
  moreover have "write_log st4 = write_log st0" "writable st4 = writable st0"
    using load_selected_scene_Inr(4,5) [OF ld] st3 make_simulator_Inr(5,6) [OF mk] by simp_all
  ultimately show ?thesis using lp pk by blast
qed

lemma script_succeeds:
  assumes acc: "\<forall>cfg. accepts (engine_of E) cfg"
    and d: "0 < \<delta>" and adv: "\<forall>t. t + \<delta> \<le> advance (engine_of E) t (1 / 30)"
    and w: "\<forall>p. writable st0 p"
    and ui_ok: "HAS_WIDGETS E \<longrightarrow>
      (\<forall>cfg. \<exists>h \<in> set (get_scene_handles (engine_of E) cfg). h = ''NONE'' \<or> \<not> sublist ''NONE'' h)"
  shows "\<exists>r. script E st0 = Some (Inr r)"
proof -
  let ?S = "make_default_settings (path_join (dir_path E) ''data'')"
  from make_simulator_accepts [of "engine_of E" ?S st0] acc obtain st1
    where mk: "make_simulator_from_settings (engine_of E) ?S st0 = Inr st1" by blast
  from make_simulator_Inr(2,3,6) [OF mk] obtain s1 where s1: "sim st1 = Some s1"
    and sel1: "selected_scene st1 = Some ''NONE''" and w1: "writable st1 = writable st0"
    by blast
  from build_widget_ui_succeeds [OF sel1, of "HAS_WIDGETS E"
      "get_scene_handles (engine_of E) (config s1)"] ui_ok
  obtain st2 sel2
    where ui: "build_widget_ui (HAS_WIDGETS E) (get_scene_handles (engine_of E) (config s1)) st1 = Inr st2"
      and sel2: "selected_scene st2 = Some sel2"
    by blast
  from build_widget_ui_Inr [OF ui] have f2: "sim st2 = sim st1" "writable st2 = writable st1"
    by auto
  let ?st3 = "if HAS_WIDGETS E
                then foldl (\<lambda>st new. snd (on_scene_ddl_change new st)) st2 (dropdown_choices E)
                else st2"
  from dropdown_choices_fold [of st2 "dropdown_choices E"] sel2 obtain sel3
    where f3: "selected_scene ?st3 = Some sel3" "sim ?st3 = sim st2" "writable ?st3 = writable st2"
    by (cases "HAS_WIDGETS E") auto
  from load_selected_scene_succeeds [OF f3(1) acc] obtain settings' st4
    where ld: "load_selected_scene (engine_of E) ?S ?st3 = Inr (settings', st4)" by blast
  from load_selected_scene_Inr(5,6) [OF ld] f3 f2 s1 w1 obtain s4
    where s4: "sim st4 = Some s4" and w4: "writable st4 = writable st0" by auto
  let ?r0 = "start_run settings' s4 st4"
  have "\<exists>rL. trajectory_loop E ?r0 = Some (Inr rL)"
    using trajectory_loop_terminates [of \<delta> E ?r0] d adv w w4 by (simp add: start_run_simps)
  then obtain rL where lp: "trajectory_loop E ?r0 = Some (Inr rL)" by blast
  from trajectory_loop_steps [OF lp] obtain n where "loop_steps E n ?r0 = Inr rL" by blast
  from loop_steps_frame [OF this] obtain sL where sL: "sim rL = Some sL"
    and wL: "writable rL = writable st0"
    using w4 by (auto simp: start_run_simps)
  have "\<exists>r. save_to_pickle E rL = Inr r"
    using sL wL w by (simp add: save_to_pickle_def Let_def write_file_def)
  then obtain r where pk: "save_to_pickle E rL = Inr r" by blast
  have "script E st0 = Some (Inr r)"
    using mk s1 ui ld s4 lp pk by (simp add: script_def Let_def)
  then show ?thesis by blast
qed

text \<open>With widgets and an engine that reports no handle, the run ends at the dropdown.\<close>

lemma script_widgets_no_handles:
  assumes "HAS_WIDGETS E" "\<forall>cfg. accepts (engine_of E) cfg"
    "\<forall>cfg. get_scene_handles (engine_of E) cfg = []"
  shows "script E st0 = Some (Inl TraitError)"
proof -
  let ?S = "make_default_settings (path_join (dir_path E) ''data'')"
  from make_simulator_accepts [of "engine_of E" ?S st0] assms(2) obtain st1
    where mk: "make_simulator_from_settings (engine_of E) ?S st0 = Inr st1" by blast
  from make_simulator_Inr(2) [OF mk] obtain s1 where s1: "sim st1 = Some s1" by blast
  show ?thesis
    using mk s1 assms(1,3) by (simp add: script_def Let_def build_widget_ui_no_handles)
qed

lemma camera_intrinsics_eq:
  "camera_intrinsics settings F =
     \<lparr>ci_width = width settings, ci_height = height settings, fov = F,
      fx = np_divide (0.5 * of_int (width settings)) (tan (radians F / 2)),
      fy = np_divide (0.5 * of_int (width settings)) (tan (radians F / 2)),
      cx = of_int (width settings) / 2, cy = of_int (height settings) / 2\<rparr>"
  by (simp add: camera_intrinsics_def Let_def)

lemma script_snapshot:
  assumes "script E st0 = Some (Inr r)"
  shows "\<exists>settings s st rL sL.
           trajectory_loop E (start_run settings s st) = Some (Inr rL) \<and>
           sim rL = Some sL \<and>
           width settings = 1280 \<and> height settings = 720 \<and> sim_settings rL = settings \<and>
           r = rL\<lparr>files := (files rL)(output_filename (dir_path E) \<mapsto>
                     Pickle (data_to_save rL (camera_intrinsics settings
                               (hfov (engine_of E) (config sL))))),
                  write_log := write_log rL @ [output_filename (dir_path E)]\<rparr> \<and>
           (output_filename (dir_path E) \<notin> set (write_log st0) \<longrightarrow>
              output_filename (dir_path E) \<notin> set (write_log rL))"
proof -
  from script_Inr [OF assms] obtain settings s st rL where
    lp: "trajectory_loop E (start_run settings s st) = Some (Inr rL)"
    and pk: "save_to_pickle E rL = Inr r"
    and wh: "width settings = 1280" "height settings = 720"
    and log: "write_log st = write_log st0"
    by blast
  from trajectory_loop_steps [OF lp] obtain n
    where n: "loop_steps E n (start_run settings s st) = Inr rL" by blast
  have same: "sim_settings rL = settings"
    using loop_steps_frame [OF n] by (simp add: start_run_simps)
  from save_to_pickle_Inr [OF pk] obtain sL where sL: "sim rL = Some sL"
    and r: "r = rL\<lparr>files := (files rL)(output_filename (dir_path E) \<mapsto>
                     Pickle (data_to_save rL (camera_intrinsics (sim_settings rL)
                               (hfov (engine_of E) (config sL))))),
                  write_log := write_log rL @ [output_filename (dir_path E)]\<rparr>"
    by blast
  have "output_filename (dir_path E) \<notin> set (write_log rL)"
    if "output_filename (dir_path E) \<notin> set (write_log st0)"
    using loop_steps_write_log [OF n] that log by (simp add: start_run_simps)
  then show ?thesis using lp sL wh same r by blast
qed

text \<open>
  Claim C8. In a run from a fresh interpreter that completes, whatever the disk held
  before, the path of the snapshot holds the pickled mapping of the observations,
  rotations and translations that the finished trajectory loop accumulated, with the
  camera intrinsics; that write is the last one of the run, no write of the loop went to
  that path, so the path is written exactly once. The run does complete when the engine
  accepts the configurations, advances the world time by at least a fixed positive amount
  at every step, every path can be written and, if the widget library is present, the
  handles that the engine reports include the sentinel or a handle without \<^verbatim>\<open>NONE\<close> in it,
  so that the dropdown can be built.
\<close>

theorem snapshot_written_once:
  "(script E (initial_state fs w) = Some (Inr r) \<longrightarrow>
      (\<exists>settings s st rL sL.
         trajectory_loop E (start_run settings s st) = Some (Inr rL) \<and>
         sim rL = Some sL \<and>
         files r (output_filename (dir_path E)) =
           Some (Pickle \<lparr>key_observations = observations rL,
                         key_rotations = rotations rL,
                         key_translations = translations_list rL,
                         key_camera_info = camera_intrinsics (sim_settings rL)
                                             (hfov (engine_of E) (config sL))\<rparr>) \<and>
         write_log r = write_log rL @ [output_filename (dir_path E)] \<and>
         output_filename (dir_path E) \<notin> set (write_log rL)) \<and>
      count_list (write_log r) (output_filename (dir_path E)) = 1) \<and>
   ((\<forall>cfg. accepts (engine_of E) cfg) \<and> 0 < \<delta> \<and>
    (\<forall>t. t + \<delta> \<le> advance (engine_of E) t (1 / 30)) \<and> (\<forall>p. w p) \<and>
    (HAS_WIDGETS E \<longrightarrow>
       (\<forall>cfg. \<exists>h \<in> set (get_scene_handles (engine_of E) cfg).
          h = ''NONE'' \<or> \<not> sublist ''NONE'' h)) \<longrightarrow>
      (\<exists>r. script E (initial_state fs w) = Some (Inr r)))"
proof -
  let ?out = "output_filename (dir_path E)"
  have part: "(\<exists>settings s st rL sL.
         trajectory_loop E (start_run settings s st) = Some (Inr rL) \<and>
         sim rL = Some sL \<and>
         files r ?out =
           Some (Pickle \<lparr>key_observations = observations rL,
                         key_rotations = rotations rL,
                         key_translations = translations_list rL,
                         key_camera_info = camera_intrinsics (sim_settings rL)
                                             (hfov (engine_of E) (config sL))\<rparr>) \<and>
         write_log r = write_log rL @ [?out] \<and> ?out \<notin> set (write_log rL)) \<and>
      count_list (write_log r) ?out = 1"
    if run: "script E (initial_state fs w) = Some (Inr r)"
  proof -
    have empty: "?out \<notin> set (write_log (initial_state fs w))"
      by (simp add: initial_state_def)
    from script_snapshot [OF run] empty obtain settings s st rL sL where
      lp: "trajectory_loop E (start_run settings s st) = Some (Inr rL)"
      and sL: "sim rL = Some sL" and same: "sim_settings rL = settings"
      and r: "r = rL\<lparr>files := (files rL)(?out \<mapsto>
                     Pickle (data_to_save rL (camera_intrinsics settings
                               (hfov (engine_of E) (config sL))))),
                  write_log := write_log rL @ [?out]\<rparr>"
      and fresh: "?out \<notin> set (write_log rL)"
      by blast
    have stored: "files r ?out =
           Some (Pickle \<lparr>key_observations = observations rL,
                         key_rotations = rotations rL,
                         key_translations = translations_list rL,
                         key_camera_info = camera_intrinsics (sim_settings rL)
                                             (hfov (engine_of E) (config sL))\<rparr>)"
      by (subst r) (simp add: data_to_save_def same)
    have log: "write_log r = write_log rL @ [?out]"
      by (subst r) simp
    have "count_list (write_log rL) ?out = 0" using fresh by (simp add: count_list_0_iff)
    then have "count_list (write_log r) ?out = 1" using log by simp
    then show ?thesis using lp sL stored log fresh by blast
  qed
  have total: "\<exists>r. script E (initial_state fs w) = Some (Inr r)"
    if "\<forall>cfg. accepts (engine_of E) cfg" "0 < \<delta>"
      "\<forall>t. t + \<delta> \<le> advance (engine_of E) t (1 / 30)" "\<forall>p. w p"
      "HAS_WIDGETS E \<longrightarrow>
         (\<forall>cfg. \<exists>h \<in> set (get_scene_handles (engine_of E) cfg).
            h = ''NONE'' \<or> \<not> sublist ''NONE'' h)"
    using script_succeeds [of E \<delta> "initial_state fs w"] that by (simp add: initial_state_def)
  show ?thesis using part total by blast
qed

theorem snapshot_written_once_witness:
  "\<exists>r (rL :: run) sL.
     script example_env_widgets
       (initial_state [''/repo/output/data.pkl'' \<mapsto> PNG (Image_L (0, 0) [])] (\<lambda>p. True))
       = Some (Inr r) \<and>
     sim rL = Some sL \<and>
     files r ''/repo/output/data.pkl'' =
       Some (Pickle \<lparr>key_observations = observations rL,
                     key_rotations = rotations rL,
                     key_translations = translations_list rL,
                     key_camera_info = camera_intrinsics (sim_settings rL) 90\<rparr>) \<and>
     write_log r = write_log rL @ [''/repo/output/data.pkl''] \<and>
     count_list (write_log r) ''/repo/output/data.pkl'' = 1"
proof -
  let ?E = "example_env_widgets"
  let ?fs = "[''/repo/output/data.pkl'' \<mapsto> PNG (Image_L (0, 0) [])]"
  have E: "engine_of ?E = example_engine" "dir_path ?E = ''/repo''"
    by (simp_all add: example_env_widgets_def example_env_def)
  have acc: "\<forall>cfg. accepts (engine_of ?E) cfg"
    and adv: "\<forall>t. t + 2 \<le> advance (engine_of ?E) t (1 / 30)"
    by (simp_all add: E example_engine_simps)
  have ui_ok: "HAS_WIDGETS ?E \<longrightarrow>
      (\<forall>cfg. \<exists>h \<in> set (get_scene_handles (engine_of ?E) cfg). h = ''NONE'' \<or> \<not> sublist ''NONE'' h)"
    by (simp add: E example_engine_simps)
  have "\<exists>r. script ?E (initial_state ?fs (\<lambda>p. True)) = Some (Inr r)"
    using snapshot_written_once [of ?E ?fs "\<lambda>p. True" undefined 2, THEN conjunct2] acc adv ui_ok
    by simp
  then obtain r where run: "script ?E (initial_state ?fs (\<lambda>p. True)) = Some (Inr r)"
    by blast
  have out: "output_filename (dir_path ?E) = ''/repo/output/data.pkl''"
    by (simp add: output_filename_def E)
  from snapshot_written_once [of ?E ?fs "\<lambda>p. True" r 2, THEN conjunct1, THEN mp, OF run]
  obtain rL :: run and sL where
    "sim rL = Some sL"
    "files r (output_filename (dir_path ?E)) =
           Some (Pickle \<lparr>key_observations = observations rL,
                         key_rotations = rotations rL,
                         key_translations = translations_list rL,
                         key_camera_info = camera_intrinsics (sim_settings rL)
                                             (hfov (engine_of ?E) (config sL))\<rparr>)"
    "write_log r = write_log rL @ [output_filename (dir_path ?E)]"
    "count_list (write_log r) (output_filename (dir_path ?E)) = 1"
    by blast
  then show ?thesis
    using run unfolding out by (auto simp: E example_engine_simps)
qed

text \<open>
  Claim C6. For every field of view \<open>F\<close>, the intrinsics computed from the default settings
  have width 1280, height 720, \<open>fx = fy = 0.5 * 1280 / tan (radians F / 2)\<close> (the division
  being numpy's), \<open>cx = 640\<close> and \<open>cy = 360\<close>; for \<open>F\<close> strictly between 0 and 180 degrees
  the focal length is the positive number \<open>640 / tan (F\<pi>/360)\<close>. The snapshot of a
  completed run holds exactly these values, for the field of view of the engine's colour
  sensor.
\<close>

theorem camera_intrinsics_values:
  "camera_intrinsics (make_default_settings dp) F =
     \<lparr>ci_width = 1280, ci_height = 720, fov = F,
      fx = np_divide (0.5 * 1280) (tan (radians F / 2)),
      fy = np_divide (0.5 * 1280) (tan (radians F / 2)),
      cx = 640, cy = 360\<rparr> \<and>
   (0 < F \<and> F < 180 \<longrightarrow>
      fx (camera_intrinsics (make_default_settings dp) F) = Finite (640 / tan (F * pi / 360)) \<and>
      0 < 640 / tan (F * pi / 360)) \<and>
   (script E st0 = Some (Inr r) \<longrightarrow>
      (\<exists>s snap. sim r = Some s \<and>
         files r (output_filename (dir_path E)) = Some (Pickle snap) \<and>
         key_camera_info snap =
           \<lparr>ci_width = 1280, ci_height = 720, fov = hfov (engine_of E) (config s),
            fx = np_divide (0.5 * 1280) (tan (radians (hfov (engine_of E) (config s)) / 2)),
            fy = np_divide (0.5 * 1280) (tan (radians (hfov (engine_of E) (config s)) / 2)),
            cx = 640, cy = 360\<rparr>))"
proof -
  have vals: "camera_intrinsics (make_default_settings dp) F =
     \<lparr>ci_width = 1280, ci_height = 720, fov = F,
      fx = np_divide (0.5 * 1280) (tan (radians F / 2)),
      fy = np_divide (0.5 * 1280) (tan (radians F / 2)),
      cx = 640, cy = 360\<rparr>"
    by (simp add: camera_intrinsics_eq make_default_settings_def)
  have positive: "fx (camera_intrinsics (make_default_settings dp) F) = Finite (640 / tan (F * pi / 360)) \<and>
      0 < 640 / tan (F * pi / 360)"
    if "0 < F" "F < 180"
  proof -
    have "0 < tan (F * pi / 360)"
      using that by (intro tan_gt_zero) (simp_all add: field_simps)
    then show ?thesis by (simp add: vals np_divide_def radians_def)
  qed
  have persisted: "\<exists>s snap. sim r = Some s \<and>
         files r (output_filename (dir_path E)) = Some (Pickle snap) \<and>
         key_camera_info snap =
           \<lparr>ci_width = 1280, ci_height = 720, fov = hfov (engine_of E) (config s),
            fx = np_divide (0.5 * 1280) (tan (radians (hfov (engine_of E) (config s)) / 2)),
            fy = np_divide (0.5 * 1280) (tan (radians (hfov (engine_of E) (config s)) / 2)),
            cx = 640, cy = 360\<rparr>"
    if run: "script E st0 = Some (Inr r)"
  proof -
    from script_snapshot [OF run] obtain settings rL sL where
      sL: "sim rL = Some sL"
      and wh: "width settings = 1280" "height settings = 720"
      and r: "r = rL\<lparr>files := (files rL)(output_filename (dir_path E) \<mapsto>
                     Pickle (data_to_save rL (camera_intrinsics settings
                               (hfov (engine_of E) (config sL))))),
                  write_log := write_log rL @ [output_filename (dir_path E)]\<rparr>"
      by blast
    let ?snap = "data_to_save rL (camera_intrinsics settings (hfov (engine_of E) (config sL)))"
    have "sim r = Some sL" by (subst r) (simp add: sL)
    moreover have "files r (output_filename (dir_path E)) = Some (Pickle ?snap)"
      by (subst r) simp
    moreover have "key_camera_info ?snap =
           \<lparr>ci_width = 1280, ci_height = 720, fov = hfov (engine_of E) (config sL),
            fx = np_divide (0.5 * 1280) (tan (radians (hfov (engine_of E) (config sL)) / 2)),
            fy = np_divide (0.5 * 1280) (tan (radians (hfov (engine_of E) (config sL)) / 2)),
            cx = 640, cy = 360\<rparr>"
      by (simp add: data_to_save_def camera_intrinsics_eq wh)
    ultimately show ?thesis by blast
  qed
  show ?thesis using vals positive persisted by blast
qed

theorem camera_intrinsics_values_witness:
  "fx (camera_intrinsics (make_default_settings ''/repo/data'') 90) = Finite 640 \<and>
   fy (camera_intrinsics (make_default_settings ''/repo/data'') 90) = Finite 640 \<and>
   cx (camera_intrinsics (make_default_settings ''/repo/data'') 90) = 640 \<and>
   cy (camera_intrinsics (make_default_settings ''/repo/data'') 90) = 360 \<and>
   (\<exists>r snap. script (example_env True True) example_state = Some (Inr r) \<and>
      files r ''/repo/output/data.pkl'' = Some (Pickle snap) \<and>
      key_camera_info snap =
        \<lparr>ci_width = 1280, ci_height = 720, fov = 90, fx = Finite 640, fy = Finite 640,
         cx = 640, cy = 360\<rparr>)"
proof -
  let ?E = "example_env True True"
  have t: "tan (90 * pi / 360) = 1" "tan (radians 90 / 2) = 1"
    using tan_45 by (simp_all add: radians_def)
  have acc: "\<forall>cfg. accepts (engine_of ?E) cfg"
    and adv: "\<forall>t. t + 2 \<le> advance (engine_of ?E) t (1 / 30)"
    and w: "\<forall>p. writable example_state p"
    by (simp_all add: example_env_simps example_engine_simps example_state_def initial_state_def)
  have no_widgets: "HAS_WIDGETS ?E \<longrightarrow>
      (\<forall>cfg. \<exists>h \<in> set (get_scene_handles (engine_of ?E) cfg). h = ''NONE'' \<or> \<not> sublist ''NONE'' h)"
    by (simp add: example_env_def)
  from script_succeeds [OF acc _ adv w no_widgets] obtain r
    where run: "script ?E example_state = Some (Inr r)" by auto
  have out: "output_filename (dir_path ?E) = ''/repo/output/data.pkl''"
    by (simp add: output_filename_def example_env_simps)
  note main = camera_intrinsics_values [of "''/repo/data''" 90 ?E example_state r]
  have first: "fx (camera_intrinsics (make_default_settings ''/repo/data'') 90) = Finite 640 \<and>
   fy (camera_intrinsics (make_default_settings ''/repo/data'') 90) = Finite 640 \<and>
   cx (camera_intrinsics (make_default_settings ''/repo/data'') 90) = 640 \<and>
   cy (camera_intrinsics (make_default_settings ''/repo/data'') 90) = 360"
    using main t by (simp add: np_divide_def)
  have second: "\<exists>snap. 
      files r ''/repo/output/data.pkl'' = Some (Pickle snap) \<and>
      key_camera_info snap =
        \<lparr>ci_width = 1280, ci_height = 720, fov = 90, fx = Finite 640, fy = Finite 640,
         cx = 640, cy = 360\<rparr>"
  proof -
    from main [THEN conjunct2, THEN conjunct2, THEN mp, OF run] obtain s :: simulator and snap where
      "files r (output_filename (dir_path ?E)) = Some (Pickle snap)"
      "key_camera_info snap =
           \<lparr>ci_width = 1280, ci_height = 720, fov = hfov (engine_of ?E) (config s),
            fx = np_divide (0.5 * 1280) (tan (radians (hfov (engine_of ?E) (config s)) / 2)),
            fy = np_divide (0.5 * 1280) (tan (radians (hfov (engine_of ?E) (config s)) / 2)),
            cx = 640, cy = 360\<rparr>"
      by blast
    then show ?thesis
      using t unfolding out by (auto simp: example_env_simps example_engine_simps np_divide_def)
  qed
  show ?thesis using first second run by blast
qed

end
